theory Spec2Isabelle
  imports Main
begin

unbundle bit_operations_syntax

section \<open>Go runtime primitives used by the ledger\<close>

text \<open>
  A Go run either returns or panics; the panics that the modelled functions can reach are
  values of \<open>go_panic\<close>, and a function that can panic returns \<open>go_panic + 'a\<close>.
\<close>

datatype go_panic = IndexOutOfRange | NilDereference | DivideByZero

text \<open>Go's \<open>int\<close> is a 64-bit two's-complement integer: arithmetic wraps.\<close>

definition wrap64 :: "int \<Rightarrow> int" where
  "wrap64 x = (x + 9223372036854775808) mod 18446744073709551616 - 9223372036854775808"

definition is_int64 :: "int \<Rightarrow> bool" where
  "is_int64 x \<longleftrightarrow> - 9223372036854775808 \<le> x \<and> x < 9223372036854775808"

text \<open>Go's \<open>%\<close> truncates towards zero: the remainder has the sign of the dividend.\<close>

definition go_rem :: "int \<Rightarrow> int \<Rightarrow> int" where
  "go_rem a b = sgn a * (\<bar>a\<bar> mod \<bar>b\<bar>)"

text \<open>\<open>fmt.Sprintf("%d", n)\<close>: the decimal digits, with a leading minus sign.\<close>

definition digit :: "int \<Rightarrow> char" where
  "digit d = char_of (48 + d)"

function dec_digits :: "int \<Rightarrow> string" where
  "dec_digits n = (if n < 10 then [digit n] else dec_digits (n div 10) @ [digit (n mod 10)])"
  by pat_completeness auto
termination
  by (relation "measure nat") auto

definition Sprintf_d :: "int \<Rightarrow> string" where
  "Sprintf_d n = (if n < 0 then CHR ''-'' # dec_digits (- n) else dec_digits n)"

text \<open>
  The conversion \<open>string(i)\<close> of an integer: the UTF-8 encoding of the code point \<open>i\<close>,
  and of U+FFFD when \<open>i\<close> is not a valid code point. It is not the decimal numeral.
\<close>

definition utf8 :: "int \<Rightarrow> string" where
  "utf8 r =
     (if r < 128 then [char_of r]
      else if r < 2048 then [char_of (192 + r div 64), char_of (128 + r mod 64)]
      else if r < 65536 then
        [char_of (224 + r div 4096), char_of (128 + (r div 64) mod 64), char_of (128 + r mod 64)]
      else
        [char_of (240 + r div 262144), char_of (128 + (r div 4096) mod 64),
         char_of (128 + (r div 64) mod 64), char_of (128 + r mod 64)])"

definition go_string_of_int :: "int \<Rightarrow> string" where
  "go_string_of_int r =
     (if r < 0 \<or> 1114111 < r \<or> (55296 \<le> r \<and> r \<le> 57343) then utf8 65533 else utf8 r)"

section \<open>crypto/sha256, crypto/hmac and encoding/hex\<close>

text \<open>
  The standard library's SHA-256 (FIPS 180-4) over 32-bit words held in \<open>int\<close>, with the
  reduction to 32 bits written out as a mask. The general theorems below never look inside it;
  it is evaluated only where a claim is settled at a concrete input.
\<close>

definition K256 :: "int list" where
  "K256 = [1116352408, 1899447441, 3049323471, 3921009573, 961987163, 1508970993,
     2453635748, 2870763221, 3624381080, 310598401, 607225278, 1426881987, 1925078388,
     2162078206, 2614888103, 3248222580, 3835390401, 4022224774, 264347078, 604807628,
     770255983, 1249150122, 1555081692, 1996064986, 2554220882, 2821834349, 2952996808,
     3210313671, 3336571891, 3584528711, 113926993, 338241895, 666307205, 773529912,
     1294757372, 1396182291, 1695183700, 1986661051, 2177026350, 2456956037, 2730485921,
     2820302411, 3259730800, 3345764771, 3516065817, 3600352804, 4094571909, 275423344,
     430227734, 506948616, 659060556, 883997877, 958139571, 1322822218, 1537002063,
     1747873779, 1955562222, 2024104815, 2227730452, 2361852424, 2428436474, 2756734187,
     3204031479, 3329325298]"

definition H256 :: "int list" where
  "H256 = [1779033703, 3144134277, 1013904242, 2773480762, 1359893119, 2600822924,
     528734635, 1541459225]"

definition w32 :: "int \<Rightarrow> int" where
  "w32 x = x AND 4294967295"

text \<open>Rotation of a 32-bit word to the right by \<open>n\<close> bits.\<close>

definition rotr :: "nat \<Rightarrow> int \<Rightarrow> int" where
  "rotr n x = drop_bit n x + push_bit (32 - n) (x AND (push_bit n 1 - 1))"

definition ssig0 :: "int \<Rightarrow> int" where
  "ssig0 x = rotr 7 x XOR rotr 18 x XOR drop_bit 3 x"

definition ssig1 :: "int \<Rightarrow> int" where
  "ssig1 x = rotr 17 x XOR rotr 19 x XOR drop_bit 10 x"

definition bsig0 :: "int \<Rightarrow> int" where
  "bsig0 x = rotr 2 x XOR rotr 13 x XOR rotr 22 x"

definition bsig1 :: "int \<Rightarrow> int" where
  "bsig1 x = rotr 6 x XOR rotr 11 x XOR rotr 25 x"

definition ch :: "int \<Rightarrow> int \<Rightarrow> int \<Rightarrow> int" where
  "ch e f g = (e AND f) XOR ((4294967295 - e) AND g)"

definition maj :: "int \<Rightarrow> int \<Rightarrow> int \<Rightarrow> int" where
  "maj a b c = (a AND b) XOR (a AND c) XOR (b AND c)"

fun expand :: "nat \<Rightarrow> int list \<Rightarrow> int list" where
  "expand 0 win = []"
| "expand (Suc n) win =
     (let w = w32 (win ! 0 + ssig0 (win ! 1) + win ! 9 + ssig1 (win ! 14))
      in w # expand n (tl win @ [w]))"

fun rounds :: "int list \<Rightarrow> int list \<Rightarrow> int list \<Rightarrow> int list" where
  "rounds [a, b, c, d, e, f, g, h] (k # ks) (w # ws) =
     (let t1 = w32 (h + bsig1 e + ch e f g + k + w);
          t2 = w32 (bsig0 a + maj a b c)
      in rounds [w32 (t1 + t2), a, b, c, w32 (d + t1), e, f, g] ks ws)"
| "rounds st ks ws = st"

fun be32 :: "int list \<Rightarrow> int list" where
  "be32 (a # b # c # d # rest) = (((a * 256 + b) * 256 + c) * 256 + d) # be32 rest"
| "be32 rest = []"

definition compress :: "int list \<Rightarrow> int list \<Rightarrow> int list" where
  "compress st blk =
     (let w = be32 blk in map w32 (map2 (+) st (rounds st K256 (w @ expand 48 w))))"

function sha_blocks :: "int list \<Rightarrow> int list \<Rightarrow> int list" where
  "sha_blocks st bs =
     (if length bs < 64 then st else sha_blocks (compress st (take 64 bs)) (drop 64 bs))"
  by pat_completeness auto
termination
  by (relation "measure (\<lambda>(st, bs). length bs)") auto

definition sha_pad :: "int list \<Rightarrow> int list" where
  "sha_pad bs =
     (let n = length bs; l = int n * 8
      in bs @ [128] @ replicate ((119 - n mod 64) mod 64) 0 @
         map (\<lambda>d. (l div d) mod 256)
           [72057594037927936, 281474976710656, 1099511627776, 4294967296, 16777216, 65536, 256, 1])"

definition word_bytes :: "int \<Rightarrow> int list" where
  "word_bytes x = [x div 16777216, (x div 65536) mod 256, (x div 256) mod 256, x mod 256]"

text \<open>\<open>sha256.Sum256\<close>: the 32 bytes of the digest.\<close>

definition sha256_sum :: "string \<Rightarrow> string" where
  "sha256_sum s = map char_of (concat (map word_bytes (sha_blocks H256 (sha_pad (map of_char s)))))"

text \<open>\<open>hex.EncodeToString\<close>: two lowercase hexadecimal digits for each byte.\<close>

definition hexdigit :: "nat \<Rightarrow> char" where
  "hexdigit d = ''0123456789abcdef'' ! d"

definition hex_EncodeToString :: "string \<Rightarrow> string" where
  "hex_EncodeToString s =
     concat (map (\<lambda>c. [hexdigit (of_char c div 16), hexdigit (of_char c mod 16)]) s)"

definition sha256_hex :: "string \<Rightarrow> string" where
  "sha256_hex s = hex_EncodeToString (sha256_sum s)"

text \<open>\<open>hmac.New(sha256.New, key)\<close>, written to and summed: HMAC-SHA256 (RFC 2104).\<close>

definition xor_byte :: "int \<Rightarrow> char \<Rightarrow> char" where
  "xor_byte p c = char_of (of_char c XOR p)"

definition hmac_sha256 :: "string \<Rightarrow> string \<Rightarrow> string" where
  "hmac_sha256 key msg =
     (let k0 = (if 64 < length key then sha256_sum key else key);
          k = k0 @ replicate (64 - length k0) (char_of (0 :: int));
          inner = sha256_sum (map (xor_byte 54) k @ msg)
      in sha256_sum (map (xor_byte 92) k @ inner))"

section \<open>Blocks and the chain\<close>

record Block =
  Index :: int
  Timestamp :: string
  Data :: string
  PrevHash :: string
  Hash :: string

definition calculateHash :: "Block \<Rightarrow> string" where
  "calculateHash block =
     sha256_hex (go_string_of_int (Index block) @ Timestamp block @ Data block @ PrevHash block)"

text \<open>\<open>time.Now().String()\<close> is an input of the model: the argument \<open>now\<close>.\<close>

definition GenerateBlock :: "Block \<Rightarrow> string \<Rightarrow> string \<Rightarrow> Block" where
  "GenerateBlock prevBlock data now =
     (let newBlock = \<lparr>Index = wrap64 (Index prevBlock + 1), Timestamp = now, Data = data,
                       PrevHash = Hash prevBlock, Hash = []\<rparr>
      in newBlock\<lparr>Hash := calculateHash newBlock\<rparr>)"

definition GenesisBlock :: "string \<Rightarrow> Block" where
  "GenesisBlock now =
     (let genesis = \<lparr>Index = 0, Timestamp = now, Data = ''Genesis Block'',
                      PrevHash = [], Hash = []\<rparr>
      in genesis\<lparr>Hash := calculateHash genesis\<rparr>)"

text \<open>The struct \<open>Blockchain\<close> has the one field \<open>Blocks\<close>.\<close>

type_synonym Blockchain = "Block list"

definition NewBlockchain :: "string \<Rightarrow> Blockchain" where
  "NewBlockchain now = [GenesisBlock now]"

text \<open>\<open>bc.Blocks[len(bc.Blocks)-1]\<close> panics on an empty chain.\<close>

definition Blockchain_AddBlock :: "Blockchain \<Rightarrow> string \<Rightarrow> string \<Rightarrow> go_panic + Blockchain" where
  "Blockchain_AddBlock bc data now =
     (if bc = [] then Inl IndexOutOfRange
      else Inr (bc @ [GenerateBlock (last bc) data now]))"

section \<open>Merkle tree\<close>

record MerkleTree =
  Root :: string
  Leaves :: "string list"

text \<open>
  One level of \<open>buildMerkleTree\<close>: neighbours are hashed together (the hex strings are
  concatenated), an unpaired last node is hashed alone.
\<close>

fun merkle_parents :: "string list \<Rightarrow> string list" where
  "merkle_parents (a # b # rest) = sha256_hex (a @ b) # merkle_parents rest"
| "merkle_parents [a] = [sha256_hex a]"
| "merkle_parents [] = []"

function buildMerkleTree :: "string list \<Rightarrow> string" where
  "buildMerkleTree [] = sha256_hex []"
| "buildMerkleTree [x] = x"
| "buildMerkleTree (x # y # zs) = buildMerkleTree (merkle_parents (x # y # zs))"
  by pat_completeness auto
termination
proof (relation "measure length")
  show "wf (measure length)" by simp
next
  fix x y :: string and zs :: "string list"
  have "length (merkle_parents us) \<le> length us" for us
    by (induction us rule: merkle_parents.induct) auto
  then have "length (merkle_parents zs) \<le> length zs" .
  then show "(merkle_parents (x # y # zs), x # y # zs) \<in> measure length" by simp
qed

definition NewMerkleTree :: "string list \<Rightarrow> MerkleTree" where
  "NewMerkleTree data =
     (if data = [] then \<lparr>Root = sha256_hex [], Leaves = []\<rparr>
      else (let leaves = map sha256_hex data
            in \<lparr>Root = buildMerkleTree leaves, Leaves = leaves\<rparr>))"

definition GetRootHash :: "MerkleTree \<Rightarrow> string" where
  "GetRootHash mt = Root mt"

section \<open>Shards and the store of shard objects\<close>

text \<open>
  A \<open>*Shard\<close> is an address into a store of shard objects, so that a shard reached from
  the index, from an enumeration and from a pending transfer is one object. The mutex of a
  shard has no counterpart: every operation runs to its end. Block slices are lists; no
  operation below reads a slice through a second header after writing through the first.
\<close>

record Shard =
  ID :: int
  Blocks :: "Block list"
  Tree :: "MerkleTree option"

record store =
  mem :: "nat \<Rightarrow> Shard"
  top :: nat

definition NewShard_value :: "int \<Rightarrow> Shard" where
  "NewShard_value id' = \<lparr>ID = id', Blocks = [], Tree = None\<rparr>"

definition empty_store :: store where
  "empty_store = \<lparr>mem = (\<lambda>a. NewShard_value 0), top = 0\<rparr>"

text \<open>\<open>NewShard\<close> allocates: the new object lives at the first unused address.\<close>

definition NewShard :: "store \<Rightarrow> int \<Rightarrow> nat \<times> store" where
  "NewShard s id' = (top s, s\<lparr>mem := (mem s)(top s := NewShard_value id'), top := Suc (top s)\<rparr>)"

definition getDataStrings :: "Block list \<Rightarrow> string list" where
  "getDataStrings blocks = map Data blocks"

definition put :: "store \<Rightarrow> nat \<Rightarrow> Shard \<Rightarrow> store" where
  "put s a sh = s\<lparr>mem := (mem s)(a := sh)\<rparr>"

definition Shard_AddBlock :: "store \<Rightarrow> nat \<Rightarrow> Block \<Rightarrow> store" where
  "Shard_AddBlock s a block =
     (let blocks = Blocks (mem s a) @ [block]
      in put s a ((mem s a)\<lparr>Blocks := blocks, Tree := Some (NewMerkleTree (map Data blocks))\<rparr>))"

definition GetRoot :: "store \<Rightarrow> nat \<Rightarrow> string" where
  "GetRoot s a = (case Tree (mem s a) of Some t \<Rightarrow> GetRootHash t | None \<Rightarrow> [])"

section \<open>SyncManager\<close>

definition SyncBlock :: "store \<Rightarrow> nat \<Rightarrow> nat \<Rightarrow> int \<Rightarrow> bool \<times> store" where
  "SyncBlock s source destination blockIndex =
     (if blockIndex < 0 \<or> int (length (Blocks (mem s source))) \<le> blockIndex then (False, s)
      else
        (let i = nat blockIndex;
             block = Blocks (mem s source) ! i;
             s1 = Shard_AddBlock s destination block;
             src = mem s1 source;
             s2 = put s1 source (src\<lparr>Blocks := take i (Blocks src) @ drop (i + 1) (Blocks src)\<rparr>);
             sourceData = map Data (Blocks (mem s2 source));
             destData = map Data (Blocks (mem s2 destination));
             s3 = put s2 source ((mem s2 source)\<lparr>Tree := Some (NewMerkleTree sourceData)\<rparr>);
             s4 = put s3 destination ((mem s3 destination)\<lparr>Tree := Some (NewMerkleTree destData)\<rparr>)
         in (True, s4)))"

section \<open>Homomorphic authenticator\<close>

record HomomorphicCommitment =
  Value :: string
  Commitment :: string

text \<open>The struct \<open>HomomorphicAuthenticator\<close> has the one field \<open>key\<close>.\<close>

type_synonym HomomorphicAuthenticator = string

definition NewHomomorphicAuthenticator :: "string \<Rightarrow> HomomorphicAuthenticator" where
  "NewHomomorphicAuthenticator key = key"

definition AuthenticateData :: "HomomorphicAuthenticator \<Rightarrow> string \<Rightarrow> string" where
  "AuthenticateData ha data = hex_EncodeToString (hmac_sha256 ha data)"

text \<open>\<open>hmac.Equal\<close> compares the two byte strings: true exactly when they are equal.\<close>

definition VerifyAuthentication :: "HomomorphicAuthenticator \<Rightarrow> string \<Rightarrow> string \<Rightarrow> bool" where
  "VerifyAuthentication ha data commitment \<longleftrightarrow> commitment = AuthenticateData ha data"

definition CombineCommitments ::
  "HomomorphicAuthenticator \<Rightarrow> HomomorphicCommitment list \<Rightarrow> HomomorphicCommitment" where
  "CombineCommitments ha commitments =
     (let combinedValue = foldl (\<lambda>acc c. acc @ Value c) [] commitments;
          combinedData = foldl (\<lambda>acc c. acc @ Commitment c) [] commitments
      in \<lparr>Value = combinedValue, Commitment = AuthenticateData ha combinedData\<rparr>)"

section \<open>EnhancedSyncManager: the two-phase transfer\<close>

record TransferState =
  SourceShard :: nat
  DestShard :: nat
  BlockIndex :: int
  Commitment_ts :: string
  Prepared :: bool
  SourceSnapshot :: "Block list"
  DestSnapshot :: "Block list"

record EnhancedSyncManager =
  authenticator :: HomomorphicAuthenticator
  pendingTransfers :: "string \<rightharpoonup> TransferState"

definition NewEnhancedSyncManager :: "string \<Rightarrow> EnhancedSyncManager" where
  "NewEnhancedSyncManager key =
     \<lparr>authenticator = NewHomomorphicAuthenticator key, pendingTransfers = Map.empty\<rparr>"

text \<open>\<open>fmt.Sprintf("%s:%s", block.Hash, block.Data)\<close>\<close>

definition partialState :: "Block \<Rightarrow> string" where
  "partialState block = Hash block @ '':'' @ Data block"

text \<open>\<open>fmt.Sprintf("%d-%d-%d", source.ID, destination.ID, blockIndex)\<close>\<close>

definition transferID :: "store \<Rightarrow> nat \<Rightarrow> nat \<Rightarrow> int \<Rightarrow> string" where
  "transferID s source destination blockIndex =
     Sprintf_d (ID (mem s source)) @ ''-'' @ Sprintf_d (ID (mem s destination)) @ ''-'' @
     Sprintf_d blockIndex"

text \<open>
  \<open>prepareTransfer\<close> indexes the source's blocks without a check of its own, and sets
  \<open>Prepared\<close> through the pointer that the table holds: it returns the state to store.
\<close>

definition prepareTransfer ::
  "EnhancedSyncManager \<Rightarrow> store \<Rightarrow> TransferState \<Rightarrow> go_panic + (bool \<times> TransferState)" where
  "prepareTransfer esm s state =
     (let blocks = Blocks (mem s (SourceShard state))
      in if BlockIndex state < 0 \<or> int (length blocks) \<le> BlockIndex state then Inl IndexOutOfRange
         else if \<not> VerifyAuthentication (authenticator esm)
                     (partialState (blocks ! nat (BlockIndex state))) (Commitment_ts state)
         then Inr (False, state)
         else Inr (True, state\<lparr>Prepared := True\<rparr>))"

definition CreateAuthenticatedTransfer ::
  "EnhancedSyncManager \<Rightarrow> store \<Rightarrow> nat \<Rightarrow> nat \<Rightarrow> int \<Rightarrow> go_panic + (bool \<times> EnhancedSyncManager)" where
  "CreateAuthenticatedTransfer esm s source destination blockIndex =
     (if blockIndex < 0 \<or> int (length (Blocks (mem s source))) \<le> blockIndex then Inr (False, esm)
      else
        (let block = Blocks (mem s source) ! nat blockIndex;
             commitment = AuthenticateData (authenticator esm) (partialState block);
             tid = transferID s source destination blockIndex;
             transferState =
               \<lparr>SourceShard = source, DestShard = destination, BlockIndex = blockIndex,
                Commitment_ts = commitment, Prepared = False,
                SourceSnapshot = Blocks (mem s source),
                DestSnapshot = Blocks (mem s destination)\<rparr>;
             esm1 = esm\<lparr>pendingTransfers := (pendingTransfers esm)(tid \<mapsto> transferState)\<rparr>
         in case prepareTransfer esm1 s transferState of
              Inl p \<Rightarrow> Inl p
            | Inr (ok, state) \<Rightarrow>
                if \<not> ok then Inr (False, esm1\<lparr>pendingTransfers := (pendingTransfers esm1)(tid := None)\<rparr>)
                else Inr (True, esm1\<lparr>pendingTransfers := (pendingTransfers esm1)(tid \<mapsto> state)\<rparr>)))"

text \<open>\<open>make([]Block, n)\<close> and the built-in \<open>copy\<close>, which copies the shorter length.\<close>

definition zeroBlock :: Block where
  "zeroBlock = \<lparr>Index = 0, Timestamp = [], Data = [], PrevHash = [], Hash = []\<rparr>"

definition go_copy :: "'a list \<Rightarrow> 'a list \<Rightarrow> 'a list" where
  "go_copy dst src = take (length dst) src @ drop (length src) dst"

definition rollback :: "store \<Rightarrow> nat \<Rightarrow> nat \<Rightarrow> TransferState \<Rightarrow> store" where
  "rollback s source destination transferState =
     (let s1 = put s source ((mem s source)\<lparr>Blocks := replicate (length (SourceSnapshot transferState)) zeroBlock\<rparr>);
          s2 = put s1 destination ((mem s1 destination)\<lparr>Blocks := replicate (length (DestSnapshot transferState)) zeroBlock\<rparr>);
          s3 = put s2 source ((mem s2 source)\<lparr>Blocks := go_copy (Blocks (mem s2 source)) (SourceSnapshot transferState)\<rparr>);
          s4 = put s3 destination ((mem s3 destination)\<lparr>Blocks := go_copy (Blocks (mem s3 destination)) (DestSnapshot transferState)\<rparr>);
          sourceData = map Data (Blocks (mem s4 source));
          destData = map Data (Blocks (mem s4 destination));
          s5 = put s4 source ((mem s4 source)\<lparr>Tree := Some (NewMerkleTree sourceData)\<rparr>)
      in put s5 destination ((mem s5 destination)\<lparr>Tree := Some (NewMerkleTree destData)\<rparr>))"

definition VerifyAndApplyTransfer ::
  "EnhancedSyncManager \<Rightarrow> store \<Rightarrow> nat \<Rightarrow> nat \<Rightarrow> int \<Rightarrow> bool \<times> store \<times> EnhancedSyncManager" where
  "VerifyAndApplyTransfer esm s source destination blockIndex =
     (let tid = transferID s source destination blockIndex
      in case pendingTransfers esm tid of
           None \<Rightarrow> (False, s, esm)
         | Some transferState \<Rightarrow>
             if \<not> Prepared transferState then (False, s, esm)
             else if blockIndex < 0 \<or> int (length (Blocks (mem s source))) \<le> blockIndex
             then (False, s, esm)
             else
               (let applied =
                      (if VerifyAuthentication (authenticator esm)
                            (partialState (Blocks (mem s source) ! nat blockIndex))
                            (Commitment_ts transferState)
                       then SyncBlock s source destination blockIndex
                       else (False, s));
                    esm' = esm\<lparr>pendingTransfers := (pendingTransfers esm)(tid := None)\<rparr>
                in if fst applied then (True, snd applied, esm')
                   else (False, rollback (snd applied) source destination transferState, esm')))"

text \<open>
  The driver's transfer demonstration (\<open>cmd/main.go\<close>): a manager made for one key
  prepares the transfer of block 0 and, when that succeeds, commits it.
\<close>

definition transfer_demo :: "string \<Rightarrow> store \<Rightarrow> nat \<Rightarrow> nat \<Rightarrow> go_panic + (bool \<times> store)" where
  "transfer_demo key s source destination =
     (let esm = NewEnhancedSyncManager key
      in case CreateAuthenticatedTransfer esm s source destination 0 of
           Inl p \<Rightarrow> Inl p
         | Inr (prepared, esm1) \<Rightarrow>
             if prepared
             then (case VerifyAndApplyTransfer esm1 s source destination 0 of
                     (verified, s', esm2) \<Rightarrow> Inr (verified, s'))
             else Inr (False, s))"

text \<open>Two shards of two blocks each, at the addresses 0 and 1.\<close>

definition demo_block :: "int \<Rightarrow> string \<Rightarrow> Block" where
  "demo_block i d =
     \<lparr>Index = i, Timestamp = ''2024-05-01 12:00:00 +0000 UTC'', Data = d,
      PrevHash = ''p'' @ Sprintf_d i, Hash = ''h'' @ Sprintf_d i\<rparr>"

definition demo_store :: store where
  "demo_store =
     \<lparr>mem = (\<lambda>a. NewShard_value 0)
        (0 := \<lparr>ID = 0, Blocks = [demo_block 0 ''Genesis Block'', demo_block 1 ''First Block after Genesis''],
               Tree = None\<rparr>,
         1 := \<lparr>ID = 1, Blocks = [demo_block 2 ''Second Block'', demo_block 3 ''Third Block''],
               Tree = None\<rparr>),
      top = 2\<rparr>"

text \<open>The first manager's table once it has prepared the transfer of block 0 on \<open>demo_store\<close>.\<close>

definition demo_pending :: EnhancedSyncManager where
  "demo_pending =
     (NewEnhancedSyncManager ''secret-key-123'')\<lparr>pendingTransfers :=
        [''0-1-0'' \<mapsto>
          \<lparr>SourceShard = 0, DestShard = 1, BlockIndex = 0,
           Commitment_ts = AuthenticateData ''secret-key-123''
              (partialState (demo_block 0 ''Genesis Block'')),
           Prepared = True,
           SourceSnapshot = Blocks (mem demo_store 0),
           DestSnapshot = Blocks (mem demo_store 1)\<rparr>]\<rparr>"

section \<open>State pruner\<close>

record PruningPolicy =
  MaxHeight :: int
  RetentionCount :: int
  UseCheckpoints :: bool

text \<open>The \<open>time.Time\<close> of a proof is an input of the model, as nanoseconds.\<close>

record IntegrityProof =
  RootHash :: string
  PrunedCount :: int
  Timestamp_ip :: int
  Signature :: string

record StatePruner =
  policy :: PruningPolicy
  integrityProofs :: "IntegrityProof list"
  merkleRoot :: string
  secretKey :: string

definition NewStatePruner :: "int \<Rightarrow> int \<Rightarrow> bool \<Rightarrow> StatePruner" where
  "NewStatePruner maxHeight retention useCheckpoints =
     \<lparr>policy = \<lparr>MaxHeight = maxHeight, RetentionCount = retention,
                 UseCheckpoints = useCheckpoints\<rparr>,
      integrityProofs = [], merkleRoot = [], secretKey = ''pruning-integrity-key''\<rparr>"

text \<open>The three writes to the hash are one write of the concatenation.\<close>

definition createIntegrityProof :: "StatePruner \<Rightarrow> string \<Rightarrow> int \<Rightarrow> int \<Rightarrow> IntegrityProof" where
  "createIntegrityProof sp rootHash count now =
     \<lparr>RootHash = rootHash, PrunedCount = count, Timestamp_ip = now,
      Signature = sha256_hex (rootHash @ Sprintf_d count @ secretKey sp)\<rparr>"

text \<open>
  \<open>PruneBlockchain\<close>. The subtraction \<open>len(bc.Blocks) - RetentionCount\<close> can leave the
  64-bit range and wraps; the second subtraction moves towards zero and cannot. The
  remainder panics for \<open>MaxHeight = 0\<close>, the loop over the pruned prefix panics when the
  count exceeds the chain, and so does the slice \<open>proof.Signature[:16]\<close> of a short string.
\<close>

definition PruneBlockchain ::
  "StatePruner \<Rightarrow> Blockchain \<Rightarrow> int \<Rightarrow> go_panic + (int \<times> StatePruner \<times> Blockchain)" where
  "PruneBlockchain sp bc now =
     (if int (length bc) \<le> RetentionCount (policy sp) then Inr (0, sp, bc)
      else
        (let prunableCount0 = wrap64 (int (length bc) - RetentionCount (policy sp))
         in if UseCheckpoints (policy sp) \<and> MaxHeight (policy sp) = 0 then Inl DivideByZero
            else
              (let prunableCount =
                     (if UseCheckpoints (policy sp)
                      then prunableCount0 - go_rem prunableCount0 (MaxHeight (policy sp))
                      else prunableCount0)
               in if prunableCount \<le> 0 then Inr (0, sp, bc)
                  else if int (length bc) < prunableCount then Inl IndexOutOfRange
                  else
                    (let rootHash = sha256_hex (concat (map Hash (take (nat prunableCount) bc)));
                         proof = createIntegrityProof sp rootHash prunableCount now;
                         sp' = sp\<lparr>integrityProofs := integrityProofs sp @ [proof],
                                  merkleRoot := rootHash\<rparr>
                     in if length (Signature proof) < 16 then Inl IndexOutOfRange
                        else Inr (prunableCount, sp', drop (nat prunableCount) bc)))))"

definition VerifyIntegrity :: "StatePruner \<Rightarrow> IntegrityProof \<Rightarrow> bool" where
  "VerifyIntegrity sp proof \<longleftrightarrow>
     sha256_hex (RootHash proof @ Sprintf_d (PrunedCount proof) @ secretKey sp) = Signature proof"

text \<open>\<open>GetLatestProof\<close> returns \<open>nil\<close> when there is no proof.\<close>

definition GetLatestProof :: "StatePruner \<Rightarrow> IntegrityProof option" where
  "GetLatestProof sp =
     (if integrityProofs sp = [] then None else Some (last (integrityProofs sp)))"

text \<open>The value that the claim gives for the number of pruned blocks.\<close>

definition claimed_dropCount :: "PruningPolicy \<Rightarrow> Blockchain \<Rightarrow> int" where
  "claimed_dropCount pol bc =
     (let d = int (length bc) - RetentionCount pol
      in if UseCheckpoints pol then d - go_rem d (MaxHeight pol) else d)"

section \<open>Succinct trie\<close>

datatype TrieNode =
  TrieNode (Children: "char \<Rightarrow> TrieNode option") (NodeValue: string) (NodeHash: string)

text \<open>The struct \<open>SuccinctTrie\<close> has the one field \<open>Root\<close>.\<close>

type_synonym SuccinctTrie = TrieNode

definition newTrieNode :: TrieNode where
  "newTrieNode = TrieNode (\<lambda>b. None) [] []"

definition NewSuccinctTrie :: SuccinctTrie where
  "NewSuccinctTrie = newTrieNode"

text \<open>
  Go does not fix the order in which \<open>range\<close> visits a map. That order is the argument
  \<open>order\<close>: the bytes in the order of the visit. \<open>string(b)\<close> of a byte is the UTF-8
  encoding of the code point \<open>b\<close>.
\<close>

definition computeNodeHash :: "char list \<Rightarrow> (char \<Rightarrow> TrieNode option) \<Rightarrow> string \<Rightarrow> string" where
  "computeNodeHash order children val =
     sha256_hex (val @ concat (map (\<lambda>b. case children b of
                                            None \<Rightarrow> []
                                          | Some child \<Rightarrow> go_string_of_int (of_char b) @ NodeHash child) order))"

primrec updateHashes :: "char list \<Rightarrow> TrieNode \<Rightarrow> TrieNode" where
  "updateHashes order (TrieNode children val h) =
     (let children' = map_option (updateHashes order) \<circ> children
      in TrieNode children' val (computeNodeHash order children' val))"

text \<open>The walk of \<open>Insert\<close> along the key, creating the missing children.\<close>

fun insert_path :: "char list \<Rightarrow> TrieNode \<Rightarrow> string \<Rightarrow> string \<Rightarrow> TrieNode" where
  "insert_path order current [] val =
     TrieNode (Children current) val (computeNodeHash order (Children current) val)"
| "insert_path order current (b # bs) val =
     (let child = (case Children current b of None \<Rightarrow> newTrieNode | Some c \<Rightarrow> c)
      in TrieNode ((Children current)(b \<mapsto> insert_path order child bs val))
           (NodeValue current) (NodeHash current))"

definition Trie_Insert :: "char list \<Rightarrow> SuccinctTrie \<Rightarrow> string \<Rightarrow> string \<Rightarrow> SuccinctTrie" where
  "Trie_Insert order st key val = updateHashes order (insert_path order st key val)"

fun Trie_Get :: "SuccinctTrie \<Rightarrow> string \<Rightarrow> string \<times> bool" where
  "Trie_Get current [] =
     (if NodeValue current \<noteq> [] then (NodeValue current, True) else ([], False))"
| "Trie_Get current (b # bs) =
     (case Children current b of Some next \<Rightarrow> Trie_Get next bs | None \<Rightarrow> ([], False))"

definition GetMerkleRoot :: "SuccinctTrie \<Rightarrow> string" where
  "GetMerkleRoot st = NodeHash st"

text \<open>A sequence of \<open>Insert\<close> calls on a fresh trie, and one order of visit for evaluation.\<close>

definition Trie_Inserts :: "char list \<Rightarrow> (string \<times> string) list \<Rightarrow> SuccinctTrie" where
  "Trie_Inserts order kvs = foldl (\<lambda>st (k, v). Trie_Insert order st k v) NewSuccinctTrie kvs"

definition ascending_bytes :: "char list" where
  "ascending_bytes = map (\<lambda>n. char_of n) [0 ..< 256]"

section \<open>RSA accumulator\<close>

record RSAAccumulator =
  N :: int
  G :: int
  State :: int
  Elements :: "string list"
  Proofs :: "string \<rightharpoonup> int"

definition NewRSAAccumulator :: RSAAccumulator where
  "NewRSAAccumulator =
     (let p = 251; q = 239; n = p * q; g = 3
      in \<lparr>N = n, G = g, State = g, Elements = [], Proofs = Map.empty\<rparr>)"

text \<open>\<open>new(big.Int).SetBytes\<close>: the bytes as a big-endian natural number.\<close>

definition SetBytes :: "string \<Rightarrow> int" where
  "SetBytes bs = foldl (\<lambda>acc c. acc * 256 + of_char c) 0 bs"

definition hashToPrime :: "string \<Rightarrow> int" where
  "hashToPrime data =
     (let hashInt = SetBytes (sha256_sum data)
      in if hashInt mod 2 = 0 then hashInt + 1 else hashInt)"

text \<open>
  \<open>(*big.Int).Exp(x, y, m)\<close> for a positive modulus: \<open>x^y mod m\<close>, by repeated squaring.
  Every exponent in the accumulator is a \<open>hashToPrime\<close>, hence at least 1.
\<close>

function big_Exp :: "int \<Rightarrow> int \<Rightarrow> int \<Rightarrow> int" where
  "big_Exp x y m =
     (if y \<le> 0 then 1 mod m
      else (let h = big_Exp x (y div 2) m; sq = h * h mod m
            in if y mod 2 = 0 then sq else sq * x mod m))"
  by pat_completeness auto
termination
  by (relation "measure (\<lambda>(x, y, m). nat y)") auto

definition AddElement :: "RSAAccumulator \<Rightarrow> string \<Rightarrow> RSAAccumulator" where
  "AddElement acc element =
     (let prime = hashToPrime element;
          state = big_Exp (State acc) prime (N acc);
          elements = Elements acc @ [element];
          proof = foldl (\<lambda>proof e. if e \<noteq> element then big_Exp proof (hashToPrime e) (N acc)
                                    else proof) (G acc) elements
      in acc\<lparr>State := state, Elements := elements, Proofs := (Proofs acc)(element \<mapsto> proof)\<rparr>)"

definition VerifyMembership :: "RSAAccumulator \<Rightarrow> string \<Rightarrow> int \<Rightarrow> bool" where
  "VerifyMembership acc element proof \<longleftrightarrow>
     big_Exp proof (hashToPrime element) (N acc) = State acc"

text \<open>The invariant of the claim: every stored element has a stored witness that verifies.\<close>

definition membership_invariant :: "RSAAccumulator \<Rightarrow> bool" where
  "membership_invariant acc \<longleftrightarrow>
     list_all (\<lambda>e. case Proofs acc e of None \<Rightarrow> False
                                      | Some w \<Rightarrow> VerifyMembership acc e w) (Elements acc)"

section \<open>Red-black tree of shards\<close>

text \<open>
  The index is a binary tree of shard addresses; the sentinel \<open>t.Nil\<close> is \<open>NilNode\<close>. The
  parent pointers of the source are the path from the inserted node up to the root: a list
  of frames, nearest parent first, each holding the side on which the node hangs, the
  parent's colour and shard, and the parent's other subtree. \<open>fixInsert\<close> follows the
  loop of the source on that path: a red uncle recolours and continues at the grandparent,
  a black uncle rotates once or twice and stops. A red parent without a grandparent is the
  nil dereference that the source would run into.
\<close>

datatype Color = Red | Black

datatype RBNode = NilNode | Node Color RBNode nat RBNode

type_synonym RBTree = RBNode

definition NewRBTree :: RBTree where
  "NewRBTree = NilNode"

fun color_of :: "RBNode \<Rightarrow> Color" where
  "color_of NilNode = Black"
| "color_of (Node c l a r) = c"

fun paint :: "Color \<Rightarrow> RBNode \<Rightarrow> RBNode" where
  "paint c NilNode = NilNode"
| "paint c (Node c' l a r) = Node c l a r"

datatype side = LeftChild | RightChild

type_synonym frame = "side \<times> Color \<times> nat \<times> RBNode"

fun plug :: "RBNode \<Rightarrow> frame \<Rightarrow> RBNode" where
  "plug n (LeftChild, c, a, sibling) = Node c n a sibling"
| "plug n (RightChild, c, a, sibling) = Node c sibling a n"

definition zip_up :: "RBNode \<Rightarrow> frame list \<Rightarrow> RBNode" where
  "zip_up n path = foldl plug n path"

fun descend :: "(nat \<Rightarrow> int) \<Rightarrow> int \<Rightarrow> RBNode \<Rightarrow> frame list \<Rightarrow> frame list" where
  "descend key k NilNode path = path"
| "descend key k (Node c l a r) path =
     (if k < key a then descend key k l ((LeftChild, c, a, r) # path)
      else descend key k r ((RightChild, c, a, l) # path))"

fun fixInsert :: "RBNode \<Rightarrow> frame list \<Rightarrow> go_panic + RBNode" where
  "fixInsert node [] = Inr node"
| "fixInsert node [(d, c, a, sibling)] =
     (if c = Red then Inl NilDereference else Inr (plug node (d, c, a, sibling)))"
| "fixInsert node ((d1, c1, a1, sibling) # (d2, c2, a2, uncle) # rest) =
     (if c1 \<noteq> Red then Inr (zip_up node ((d1, c1, a1, sibling) # (d2, c2, a2, uncle) # rest))
      else if color_of uncle = Red then
        fixInsert (plug (plug node (d1, Black, a1, sibling)) (d2, Red, a2, paint Black uncle)) rest
      else
        (case node of
           NilNode \<Rightarrow> Inl NilDereference
         | Node cn nl an nr \<Rightarrow>
             Inr (zip_up
               (case (d2, d1) of
                  (LeftChild, RightChild) \<Rightarrow>
                    Node Black (Node Red sibling a1 nl) an (Node Red nr a2 uncle)
                | (LeftChild, LeftChild) \<Rightarrow>
                    Node Black (Node cn nl an nr) a1 (Node Red sibling a2 uncle)
                | (RightChild, LeftChild) \<Rightarrow>
                    Node Black (Node Red uncle a2 nl) an (Node Red nr a1 sibling)
                | (RightChild, RightChild) \<Rightarrow>
                    Node Black (Node Red uncle a2 sibling) a1 (Node cn nl an nr))
               rest)))"

definition RB_Insert :: "(nat \<Rightarrow> int) \<Rightarrow> RBTree \<Rightarrow> nat \<Rightarrow> go_panic + RBTree" where
  "RB_Insert key t shard =
     (case fixInsert (Node Red NilNode shard NilNode) (descend key (key shard) t []) of
        Inl p \<Rightarrow> Inl p
      | Inr root \<Rightarrow> Inr (paint Black root))"

fun RB_FindShard :: "(nat \<Rightarrow> int) \<Rightarrow> RBTree \<Rightarrow> int \<Rightarrow> nat option" where
  "RB_FindShard key NilNode id' = None"
| "RB_FindShard key (Node c l a r) id' =
     (if id' = key a then Some a
      else if id' < key a then RB_FindShard key l id'
      else RB_FindShard key r id')"

fun GetAllShards :: "RBTree \<Rightarrow> nat list" where
  "GetAllShards NilNode = []"
| "GetAllShards (Node c l a r) = GetAllShards l @ a # GetAllShards r"

section \<open>Shard manager\<close>

text \<open>
  The struct \<open>ShardManager\<close> has the one field \<open>Shards\<close>. Shards are compared by the
  \<open>ID\<close> found in the store. \<open>merge_loop\<close> is the loop of \<open>MergeShards\<close> with its index and
  its \<open>used\<close> table.
\<close>

definition MinBlocksPerShard :: nat where
  "MinBlocksPerShard = 2"

definition MaxBlocksPerShard :: nat where
  "MaxBlocksPerShard = 3"

type_synonym ShardManager = RBTree

definition shard_key :: "store \<Rightarrow> nat \<Rightarrow> int" where
  "shard_key s a = ID (mem s a)"

definition NewShardManager :: "store \<Rightarrow> go_panic + (ShardManager \<times> store)" where
  "NewShardManager s =
     (let tree = NewRBTree;
          (shard, s1) = NewShard s 0
      in case RB_Insert (shard_key s1) tree shard of
           Inl p \<Rightarrow> Inl p
         | Inr tree1 \<Rightarrow> Inr (tree1, s1))"

definition rebalance_step ::
  "nat \<Rightarrow> RBTree \<times> int \<times> store \<Rightarrow> go_panic + (RBTree \<times> int \<times> store)" where
  "rebalance_step shard st =
     (case st of (newTree, shardIDCounter, s) \<Rightarrow>
        if MaxBlocksPerShard < length (Blocks (mem s shard)) then
          (let mid = length (Blocks (mem s shard)) div 2;
               leftBlocks = take mid (Blocks (mem s shard));
               rightBlocks = drop mid (Blocks (mem s shard));
               s1 = put s shard ((mem s shard)\<lparr>Blocks := leftBlocks,
                      Tree := Some (NewMerkleTree (getDataStrings leftBlocks))\<rparr>)
           in case RB_Insert (shard_key s1) newTree shard of
                Inl p \<Rightarrow> Inl p
              | Inr tree1 \<Rightarrow>
                  (let (newShard, s2) = NewShard s1 shardIDCounter;
                       s3 = foldl (\<lambda>s' b. Shard_AddBlock s' newShard b) s2 rightBlocks
                   in case RB_Insert (shard_key s3) tree1 newShard of
                        Inl p \<Rightarrow> Inl p
                      | Inr tree2 \<Rightarrow> Inr (tree2, shardIDCounter + 1, s3)))
        else
          (case RB_Insert (shard_key s) newTree shard of
             Inl p \<Rightarrow> Inl p
           | Inr tree1 \<Rightarrow> Inr (tree1, shardIDCounter, s)))"

fun rebalance_loop ::
  "nat list \<Rightarrow> RBTree \<times> int \<times> store \<Rightarrow> go_panic + (RBTree \<times> int \<times> store)" where
  "rebalance_loop [] st = Inr st"
| "rebalance_loop (shard # rest) st =
     (case rebalance_step shard st of Inl p \<Rightarrow> Inl p | Inr st' \<Rightarrow> rebalance_loop rest st')"

definition RebalanceShards :: "ShardManager \<Rightarrow> store \<Rightarrow> go_panic + (ShardManager \<times> store)" where
  "RebalanceShards sm s =
     (let currentShards = GetAllShards sm
      in case rebalance_loop currentShards (NewRBTree, int (length currentShards), s) of
           Inl p \<Rightarrow> Inl p
         | Inr (newTree, shardIDCounter, s') \<Rightarrow> Inr (newTree, s'))"

definition DistributeBlock ::
  "ShardManager \<Rightarrow> store \<Rightarrow> Block \<Rightarrow> go_panic + (ShardManager \<times> store)" where
  "DistributeBlock sm s block =
     (let shards = GetAllShards sm
      in if shards = [] then Inl IndexOutOfRange
         else RebalanceShards sm (Shard_AddBlock s (last shards) block))"

function merge_loop ::
  "int \<Rightarrow> nat list \<Rightarrow> nat \<Rightarrow> (nat \<Rightarrow> bool) \<Rightarrow> RBTree \<times> store \<Rightarrow>
   go_panic + (RBTree \<times> store)" where
  "merge_loop threshold currentShards i used st =
     (if \<not> i < length currentShards then Inr st
      else if used i then merge_loop threshold currentShards (i + 1) used st
      else
        (case st of (newTree, s) \<Rightarrow>
          (let current = currentShards ! i
           in if int (length (Blocks (mem s current))) < threshold \<and>
                 i + 1 < length currentShards \<and> \<not> used (i + 1)
              then
                (let next = currentShards ! (i + 1);
                     (merged, s1) = NewShard s (ID (mem s current));
                     s2 = put s1 merged ((mem s1 merged)\<lparr>Blocks :=
                            Blocks (mem s1 current) @ Blocks (mem s1 next)\<rparr>);
                     s3 = put s2 merged ((mem s2 merged)\<lparr>Tree :=
                            Some (NewMerkleTree (map Data (Blocks (mem s2 merged))))\<rparr>)
                 in case RB_Insert (shard_key s3) newTree merged of
                      Inl p \<Rightarrow> Inl p
                    | Inr tree1 \<Rightarrow>
                        merge_loop threshold currentShards (i + 1)
                          (used(i := True, i + 1 := True)) (tree1, s3))
              else
                (case RB_Insert (shard_key s) newTree current of
                   Inl p \<Rightarrow> Inl p
                 | Inr tree1 \<Rightarrow>
                     merge_loop threshold currentShards (i + 1) (used(i := True)) (tree1, s)))))"
  by pat_completeness auto
termination
  by (relation "measure (\<lambda>(threshold, currentShards, i, used, st). length currentShards - i)") auto

definition MergeShards ::
  "ShardManager \<Rightarrow> store \<Rightarrow> int \<Rightarrow> go_panic + (ShardManager \<times> store)" where
  "MergeShards sm s threshold =
     merge_loop threshold (GetAllShards sm) 0 (\<lambda>i. False) (NewRBTree, s)"

definition ShardManager_FindShard :: "ShardManager \<Rightarrow> store \<Rightarrow> int \<Rightarrow> nat option" where
  "ShardManager_FindShard sm s id' = RB_FindShard (shard_key s) sm id'"

definition ReconstructState :: "ShardManager \<Rightarrow> store \<Rightarrow> int \<Rightarrow> string \<times> bool" where
  "ReconstructState sm s shardID =
     (case ShardManager_FindShard sm s shardID of
        None \<Rightarrow> ([], False)
      | Some shard \<Rightarrow> (GetRoot s shard, True))"

datatype manager_op = Distribute Block | Rebalance | Merge int

fun apply_op :: "manager_op \<Rightarrow> ShardManager \<times> store \<Rightarrow> go_panic + (ShardManager \<times> store)" where
  "apply_op (Distribute block) (sm, s) = DistributeBlock sm s block"
| "apply_op Rebalance (sm, s) = RebalanceShards sm s"
| "apply_op (Merge threshold) (sm, s) = MergeShards sm s threshold"

fun run_ops :: "manager_op list \<Rightarrow> go_panic + (ShardManager \<times> store) \<Rightarrow> go_panic + (ShardManager \<times> store)" where
  "run_ops [] r = r"
| "run_ops (x # xs) (Inl p) = Inl p"
| "run_ops (x # xs) (Inr st) = run_ops xs (apply_op x st)"

text \<open>The shards to the left and to the right of the position that a path leads to.\<close>

fun before :: "frame list \<Rightarrow> nat list" where
  "before [] = []"
| "before ((LeftChild, c, a, sibling) # path) = before path"
| "before ((RightChild, c, a, sibling) # path) = before path @ GetAllShards sibling @ [a]"

fun after :: "frame list \<Rightarrow> nat list" where
  "after [] = []"
| "after ((LeftChild, c, a, sibling) # path) = a # GetAllShards sibling @ after path"
| "after ((RightChild, c, a, sibling) # path) = after path"

section \<open>Inputs and claimed values for the concrete checks\<close>

text \<open>Three commitments with short payloads and MAC strings.\<close>

definition demo_a :: HomomorphicCommitment where
  "demo_a = \<lparr>Value = ''a'', Commitment = ''x''\<rparr>"

definition demo_b :: HomomorphicCommitment where
  "demo_b = \<lparr>Value = ''b'', Commitment = []\<rparr>"

definition demo_c :: HomomorphicCommitment where
  "demo_c = \<lparr>Value = ''c'', Commitment = []\<rparr>"

text \<open>A chain of seven blocks, and the pruner \<open>NewStatePruner 2 2 True\<close> after pruning it.\<close>

definition demo_chain :: Blockchain where
  "demo_chain = map (\<lambda>i. demo_block i ''payload'') [0, 1, 2, 3, 4, 5, 6]"

definition demo_pruned :: StatePruner where
  "demo_pruned =
     (let sp = NewStatePruner 2 2 True;
          rootHash = sha256_hex (concat (map Hash (take 4 demo_chain)))
      in sp\<lparr>integrityProofs := [createIntegrityProof sp rootHash 4 0], merkleRoot := rootHash\<rparr>)"

text \<open>
  What the claim about the trie says \<open>Get\<close> returns after the inserts \<open>kvs\<close>: the value of
  the last insert of the key, found exactly when the key was inserted.
\<close>

definition claimed_Get :: "(string \<times> string) list \<Rightarrow> string \<Rightarrow> string \<times> bool" where
  "claimed_Get kvs k = (case map_of (rev kvs) k of None \<Rightarrow> ([], False) | Some v \<Rightarrow> (v, True))"

text \<open>What the claim about the chain gives as the hash of a block: the index in decimal.\<close>

definition claimed_Hash :: "Block \<Rightarrow> string" where
  "claimed_Hash b = sha256_hex (Sprintf_d (Index b) @ Timestamp b @ Data b @ PrevHash b)"

text \<open>A fresh chain with one block added, and an accumulator with two elements added.\<close>

definition demo_added :: "go_panic + Blockchain" where
  "demo_added =
     Blockchain_AddBlock (NewBlockchain ''2024-05-01 12:00:00 +0000 UTC'')
       ''First Block after Genesis'' ''2024-05-01 12:00:01 +0000 UTC''"

definition demo_acc :: RSAAccumulator where
  "demo_acc = AddElement (AddElement NewRSAAccumulator ''block_hash_1'') ''block_hash_2''"

section \<open>Known answers for the hash functions\<close>

lemma sha256_hex_abc:
  "sha256_hex ''abc'' = ''ba7816bf8f01cfea414140de5dae2223b00361a396177a9cb410ff61f20015ad''"
  by code_simp

lemma hmac_sha256_known_answer:
  "hex_EncodeToString (hmac_sha256 ''key'' ''The quick brown fox jumps over the lazy dog'') =
     ''f7bc83f430538424b13298e6aa6fb143ef4d59a14946175997479dbc2d1a3cd8''"
  by code_simp

section \<open>The two-phase transfer\<close>

declare dec_digits.simps [simp del] sha_blocks.simps [simp del]

lemma VerifyAuthentication_own [simp]:
  "VerifyAuthentication ha d (AuthenticateData ha d)"
  by (simp add: VerifyAuthentication_def)

lemma mem_put [simp]: "mem (put s a sh) b = (if b = a then sh else mem s b)"
  by (simp add: put_def)

lemma top_put [simp]: "top (put s a sh) = top s"
  by (simp add: put_def)

lemma Create_valid:
  assumes "0 \<le> blockIndex" "blockIndex < int (length (Blocks (mem s source)))"
  shows "CreateAuthenticatedTransfer esm s source destination blockIndex =
     Inr (True, esm\<lparr>pendingTransfers := (pendingTransfers esm)
        (transferID s source destination blockIndex \<mapsto>
          \<lparr>SourceShard = source, DestShard = destination, BlockIndex = blockIndex,
           Commitment_ts = AuthenticateData (authenticator esm)
              (partialState (Blocks (mem s source) ! nat blockIndex)),
           Prepared = True,
           SourceSnapshot = Blocks (mem s source),
           DestSnapshot = Blocks (mem s destination)\<rparr>)\<rparr>)"
  using assms
  by (simp add: CreateAuthenticatedTransfer_def prepareTransfer_def Let_def)

lemma Create_invalid:
  assumes "blockIndex < 0 \<or> int (length (Blocks (mem s source))) \<le> blockIndex"
  shows "CreateAuthenticatedTransfer esm s source destination blockIndex = Inr (False, esm)"
  using assms by (auto simp add: CreateAuthenticatedTransfer_def)

lemma Create_True_iff:
  "CreateAuthenticatedTransfer esm s source destination blockIndex = Inr (True, esm') \<Longrightarrow>
   0 \<le> blockIndex \<and> blockIndex < int (length (Blocks (mem s source)))"
  by (rule ccontr) (auto simp add: Create_invalid)

text \<open>
  C10. When a transfer has been prepared and the source shard then holds so few blocks that
  the block index is out of range, \<open>VerifyAndApplyTransfer\<close> returns false and changes
  nothing: no shard is restored from a snapshot, no Merkle tree is rebuilt, and the
  prepared entry stays in the table of pending transfers under the same transfer ID.
\<close>

theorem invalid_index_commit_keeps_pending:
  assumes "CreateAuthenticatedTransfer esm0 s0 source destination blockIndex = Inr (True, esm)"
    and "ID (mem s source) = ID (mem s0 source)"
    and "ID (mem s destination) = ID (mem s0 destination)"
    and "int (length (Blocks (mem s source))) \<le> blockIndex"
  shows "VerifyAndApplyTransfer esm s source destination blockIndex = (False, s, esm) \<and>
         (\<exists>ts. pendingTransfers esm (transferID s source destination blockIndex) = Some ts \<and>
               Prepared ts)"
proof -
  from assms(1) have v: "0 \<le> blockIndex" "blockIndex < int (length (Blocks (mem s0 source)))"
    using Create_True_iff by blast+
  have tid: "transferID s source destination blockIndex = transferID s0 source destination blockIndex"
    using assms(2,3) by (simp add: transferID_def)
  from assms(1) Create_valid [OF v, of esm0 destination]
  have esm: "esm = esm0\<lparr>pendingTransfers := (pendingTransfers esm0)
        (transferID s0 source destination blockIndex \<mapsto>
          \<lparr>SourceShard = source, DestShard = destination, BlockIndex = blockIndex,
           Commitment_ts = AuthenticateData (authenticator esm0)
              (partialState (Blocks (mem s0 source) ! nat blockIndex)),
           Prepared = True,
           SourceSnapshot = Blocks (mem s0 source),
           DestSnapshot = Blocks (mem s0 destination)\<rparr>)\<rparr>"
    by simp
  show ?thesis
    using assms(4) by (simp add: VerifyAndApplyTransfer_def tid esm)
qed

lemma SyncBlock_valid:
  assumes "0 \<le> blockIndex" "blockIndex < int (length (Blocks (mem s source)))"
    and "source \<noteq> destination"
  shows "fst (SyncBlock s source destination blockIndex)"
    and "Blocks (mem (snd (SyncBlock s source destination blockIndex)) source) =
           take (nat blockIndex) (Blocks (mem s source)) @ drop (Suc (nat blockIndex)) (Blocks (mem s source))"
    and "Blocks (mem (snd (SyncBlock s source destination blockIndex)) destination) =
           Blocks (mem s destination) @ [Blocks (mem s source) ! nat blockIndex]"
  using assms
  by (simp_all add: SyncBlock_def Shard_AddBlock_def Let_def)

lemma prepare_then_commit:
  assumes v: "0 \<le> blockIndex" "blockIndex < int (length (Blocks (mem s source)))"
    and ne: "source \<noteq> destination"
    and c: "CreateAuthenticatedTransfer esm s source destination blockIndex = Inr (ok, esm1)"
    and a: "VerifyAndApplyTransfer esm1 s source destination blockIndex = (committed, s', esm2)"
  shows "ok \<and> committed \<and>
     Blocks (mem s' source) =
       take (nat blockIndex) (Blocks (mem s source)) @ drop (Suc (nat blockIndex)) (Blocks (mem s source)) \<and>
     Blocks (mem s' destination) = Blocks (mem s destination) @ [Blocks (mem s source) ! nat blockIndex]"
proof -
  from c Create_valid [OF v, of esm destination]
  have ok: "ok" and esm1: "esm1 = esm\<lparr>pendingTransfers := (pendingTransfers esm)
        (transferID s source destination blockIndex \<mapsto>
          \<lparr>SourceShard = source, DestShard = destination, BlockIndex = blockIndex,
           Commitment_ts = AuthenticateData (authenticator esm)
              (partialState (Blocks (mem s source) ! nat blockIndex)),
           Prepared = True,
           SourceSnapshot = Blocks (mem s source),
           DestSnapshot = Blocks (mem s destination)\<rparr>)\<rparr>"
    by simp_all
  have "VerifyAndApplyTransfer esm1 s source destination blockIndex =
     (True, snd (SyncBlock s source destination blockIndex),
      esm1\<lparr>pendingTransfers := (pendingTransfers esm1)(transferID s source destination blockIndex := None)\<rparr>)"
    using v SyncBlock_valid(1) [OF v ne]
    by (simp add: VerifyAndApplyTransfer_def esm1 Let_def)
  with a have "committed" and "s' = snd (SyncBlock s source destination blockIndex)" by simp_all
  then show ?thesis using ok SyncBlock_valid(2,3) [OF v ne] by simp
qed


lemma transfer_demo_commits:
  assumes "0 < length (Blocks (mem s source))" and "source \<noteq> destination"
  shows "transfer_demo key s source destination =
           Inr (True, snd (SyncBlock s source destination 0))"
proof -
  have v: "(0::int) \<le> 0" "0 < int (length (Blocks (mem s source)))"
    using assms(1) by simp_all
  have "VerifyAndApplyTransfer
          ((NewEnhancedSyncManager key)\<lparr>pendingTransfers := (pendingTransfers (NewEnhancedSyncManager key))
        (transferID s source destination 0 \<mapsto>
          \<lparr>SourceShard = source, DestShard = destination, BlockIndex = 0,
           Commitment_ts = AuthenticateData (authenticator (NewEnhancedSyncManager key))
              (partialState (Blocks (mem s source) ! nat 0)),
           Prepared = True,
           SourceSnapshot = Blocks (mem s source),
           DestSnapshot = Blocks (mem s destination)\<rparr>)\<rparr>) s source destination 0 =
     (True, snd (SyncBlock s source destination 0),
      (NewEnhancedSyncManager key)\<lparr>pendingTransfers := Map.empty\<rparr>)"
    using v SyncBlock_valid(1) [OF v assms(2)]
    by (simp add: VerifyAndApplyTransfer_def Let_def NewEnhancedSyncManager_def)
  then show ?thesis
    by (simp add: transfer_demo_def Create_valid [OF v])
qed

text \<open>
  C1. The driver's two transfers, run on \<open>demo_store\<close>: the manager with the key
  \<open>secret-key-123\<close> moves block 0 of the first shard to the second, and the manager made
  with \<open>wrong-key\<close> then does the same. The claim expects the second commit to return
  false and both shards to keep their blocks; the commit returns true and the block moves.
\<close>

theorem wrong_key_transfer_commits:
  "case transfer_demo ''secret-key-123'' demo_store 0 1 of
     Inl p \<Rightarrow> False
   | Inr (verified1, s1) \<Rightarrow>
       verified1 \<and>
       map Data (Blocks (mem s1 0)) = [''First Block after Genesis''] \<and>
       map Data (Blocks (mem s1 1)) = [''Second Block'', ''Third Block'', ''Genesis Block''] \<and>
       (case transfer_demo ''wrong-key'' s1 0 1 of
          Inl p \<Rightarrow> False
        | Inr (verified2, s2) \<Rightarrow>
            verified2 \<and>
            map Data (Blocks (mem s2 0)) = [] \<and>
            map Data (Blocks (mem s2 1)) =
              [''Second Block'', ''Third Block'', ''Genesis Block'', ''First Block after Genesis''])"
proof -
  have ne: "(0::nat) \<noteq> 1" by simp
  have l0: "0 < length (Blocks (mem demo_store 0))"
    by (simp add: demo_store_def)
  have v0: "(0::int) \<le> 0" "0 < int (length (Blocks (mem demo_store 0)))"
    using l0 by simp_all
  let ?s1 = "snd (SyncBlock demo_store 0 1 0)"
  have b10: "map Data (Blocks (mem ?s1 0)) = [''First Block after Genesis'']"
    using SyncBlock_valid(2) [OF v0 ne] by (simp add: demo_store_def demo_block_def)
  have b11: "map Data (Blocks (mem ?s1 1)) = [''Second Block'', ''Third Block'', ''Genesis Block'']"
    using SyncBlock_valid(3) [OF v0 ne] by (simp add: demo_store_def demo_block_def)
  have l1: "0 < length (Blocks (mem ?s1 0))"
    using SyncBlock_valid(2) [OF v0 ne] by (simp add: demo_store_def)
  have v1: "(0::int) \<le> 0" "0 < int (length (Blocks (mem ?s1 0)))"
    using l1 by simp_all
  let ?s2 = "snd (SyncBlock ?s1 0 1 0)"
  have b20: "Blocks (mem ?s2 0) = []"
    using SyncBlock_valid(2) [OF v1 ne] SyncBlock_valid(2) [OF v0 ne]
    by (simp add: demo_store_def)
  have b21: "map Data (Blocks (mem ?s2 1)) =
      [''Second Block'', ''Third Block'', ''Genesis Block'', ''First Block after Genesis'']"
    using SyncBlock_valid(3) [OF v1 ne] SyncBlock_valid(2,3) [OF v0 ne]
    by (simp add: demo_store_def demo_block_def)
  show ?thesis
    by (simp del: One_nat_def add: transfer_demo_commits [OF l0 ne] transfer_demo_commits [OF l1 ne] b10 b11 b20 b21)
qed

lemma Sprintf_d_small [simp]: "Sprintf_d 0 = ''0''" "Sprintf_d 1 = ''1''"
  by code_simp+

theorem invalid_index_commit_keeps_pending_witness:
  "CreateAuthenticatedTransfer (NewEnhancedSyncManager ''secret-key-123'') demo_store 0 1 0 =
     Inr (True, demo_pending) \<and>
   VerifyAndApplyTransfer demo_pending (put demo_store 0 (NewShard_value 0)) 0 1 0 =
     (False, put demo_store 0 (NewShard_value 0), demo_pending)"
proof -
  have c: "CreateAuthenticatedTransfer (NewEnhancedSyncManager ''secret-key-123'') demo_store 0 1 0 =
     Inr (True, demo_pending)"
    by (simp add: Create_valid demo_store_def demo_pending_def transferID_def
        NewEnhancedSyncManager_def NewHomomorphicAuthenticator_def)
  have i0: "ID (mem (put demo_store 0 (NewShard_value 0)) 0) = ID (mem demo_store 0)"
    by (simp add: demo_store_def NewShard_value_def)
  have i1: "ID (mem (put demo_store 0 (NewShard_value 0)) 1) = ID (mem demo_store 1)"
    by (simp add: demo_store_def NewShard_value_def)
  have l: "int (length (Blocks (mem (put demo_store 0 (NewShard_value 0)) 0))) \<le> 0"
    by (simp add: NewShard_value_def)
  show ?thesis using invalid_index_commit_keeps_pending [OF c i0 i1 l] c by simp
qed



section \<open>CombineCommitments\<close>

lemma foldl_append_concat: "foldl (\<lambda>acc c. acc @ f c) a cs = a @ concat (map f cs)"
  by (induction cs arbitrary: a) simp_all

lemma CombineCommitments_eq:
  "CombineCommitments ha cs =
     \<lparr>Value = concat (map Value cs), Commitment = AuthenticateData ha (concat (map Commitment cs))\<rparr>"
  by (simp add: CombineCommitments_def foldl_append_concat)

text \<open>
  C5 (amended). \<open>CombineCommitments\<close> is a function of the key and the list: the combined
  payload is the concatenation of the member payloads, and the combined MAC is the HMAC of
  the concatenation of the member MACs. The payload of a nested combination does not depend
  on the nesting. Its MAC does: it is the HMAC of a string that holds the inner MAC in
  place of the inner members' MACs.
\<close>

theorem CombineCommitments_structure:
  "CombineCommitments ha cs =
     \<lparr>Value = concat (map Value cs),
      Commitment = AuthenticateData ha (concat (map Commitment cs))\<rparr> \<and>
   Value (CombineCommitments ha [CombineCommitments ha [a, b], c]) =
     Value (CombineCommitments ha [a, CombineCommitments ha [b, c]]) \<and>
   Commitment (CombineCommitments ha [CombineCommitments ha [a, b], c]) =
     AuthenticateData ha (AuthenticateData ha (Commitment a @ Commitment b) @ Commitment c) \<and>
   Commitment (CombineCommitments ha [a, CombineCommitments ha [b, c]]) =
     AuthenticateData ha (Commitment a @ AuthenticateData ha (Commitment b @ Commitment c))"
  by (simp add: CombineCommitments_eq)

lemma mac_k_x:
  "AuthenticateData ''k'' ''x'' = ''c38edc8815c8489f64738978f44008f8596345545f0baa68ef6fcf5c53e57189''"
  by code_simp

lemma mac_k_empty:
  "AuthenticateData ''k'' [] = ''8bb990c40a7d61cb97597a942125025be50ac8beb74436e3735b98893a7f6620''"
  by code_simp

lemma mac_k_left:
  "AuthenticateData ''k'' ''c38edc8815c8489f64738978f44008f8596345545f0baa68ef6fcf5c53e57189'' =
     ''ba8b1f2174a683ff44aa1f7752b9ecfd21627bbb20ec97c13bebc30feae911ea''"
  by code_simp

lemma mac_k_right:
  "AuthenticateData ''k'' ''x8bb990c40a7d61cb97597a942125025be50ac8beb74436e3735b98893a7f6620'' =
     ''cc1708970e0f123497226db13ca4d1c45ce6ac4bd3569da5a2ec8c1838e5e045''"
  by code_simp

text \<open>
  C5 (as claimed) fails: under the key \<open>k\<close>, combining \<open>[Combine [a, b], c]\<close> and combining
  \<open>[a, Combine [b, c]]\<close> give different commitment strings.
\<close>

theorem CombineCommitments_not_associative:
  "CombineCommitments ''k'' [CombineCommitments ''k'' [demo_a, demo_b], demo_c] \<noteq>
   CombineCommitments ''k'' [demo_a, CombineCommitments ''k'' [demo_b, demo_c]]"
proof -
  have l: "Commitment (CombineCommitments ''k'' [CombineCommitments ''k'' [demo_a, demo_b], demo_c]) =
      ''ba8b1f2174a683ff44aa1f7752b9ecfd21627bbb20ec97c13bebc30feae911ea''"
    by (simp add: CombineCommitments_eq demo_a_def demo_b_def demo_c_def mac_k_x mac_k_left)
  have r: "Commitment (CombineCommitments ''k'' [demo_a, CombineCommitments ''k'' [demo_b, demo_c]]) =
      ''cc1708970e0f123497226db13ca4d1c45ce6ac4bd3569da5a2ec8c1838e5e045''"
    by (simp add: CombineCommitments_eq demo_a_def demo_b_def demo_c_def mac_k_empty mac_k_right)
  have "Commitment (CombineCommitments ''k'' [CombineCommitments ''k'' [demo_a, demo_b], demo_c]) \<noteq>
        Commitment (CombineCommitments ''k'' [demo_a, CombineCommitments ''k'' [demo_b, demo_c]])"
    unfolding l r by simp
  then show ?thesis by auto
qed


section \<open>Pruner\<close>

lemma length_rounds: "length st = 8 \<Longrightarrow> length (rounds st ks ws) = 8"
  by (induction st ks ws rule: rounds.induct) (simp_all add: Let_def)

lemma length_compress: "length st = 8 \<Longrightarrow> length (compress st blk) = 8"
  by (simp add: compress_def Let_def length_rounds)

lemma length_sha_blocks: "length st = 8 \<Longrightarrow> length (sha_blocks st bs) = 8"
proof (induction st bs rule: sha_blocks.induct)
  case (1 st bs)
  then show ?case
    by (subst sha_blocks.simps) (simp add: length_compress)
qed

lemma length_concat_word_bytes: "length (concat (map word_bytes ws)) = 4 * length ws"
  by (induction ws) (simp_all add: word_bytes_def)

lemma length_sha256_sum: "length (sha256_sum s) = 32"
  by (simp add: sha256_sum_def length_concat_word_bytes length_sha_blocks H256_def)

lemma length_hex_EncodeToString: "length (hex_EncodeToString s) = 2 * length s"
  by (induction s) (simp_all add: hex_EncodeToString_def)

lemma length_sha256_hex: "length (sha256_hex s) = 64"
  by (simp add: sha256_hex_def length_hex_EncodeToString length_sha256_sum)

lemma go_rem_nonneg: "0 \<le> a \<Longrightarrow> go_rem a b = a mod \<bar>b\<bar>"
  by (cases "a = 0") (simp_all add: go_rem_def)

lemma go_rem_neg: "a < 0 \<Longrightarrow> go_rem a b = - ((- a) mod \<bar>b\<bar>)"
  by (simp add: go_rem_def)

lemma sub_go_rem_nonpos: "a \<le> 0 \<Longrightarrow> a - go_rem a b \<le> 0"
proof (cases "a = 0")
  case True then show ?thesis by (simp add: go_rem_def)
next
  case False
  assume "a \<le> 0"
  with False have n: "a < 0" by simp
  have "(- a) mod \<bar>b\<bar> \<le> - a"
    using n by (intro zmod_le_nonneg_dividend) simp
  then show ?thesis using n by (simp add: go_rem_neg)
qed

lemma wrap64_cases:
  assumes "- 9223372036854775808 < x" "x < 18446744073709551616"
  shows "wrap64 x = (if x < 9223372036854775808 then x else x - 18446744073709551616)"
proof (cases "x < 9223372036854775808")
  case True
  then have "(x + 9223372036854775808) mod 18446744073709551616 = x + 9223372036854775808"
    using assms by (intro mod_pos_pos_trivial) simp_all
  then show ?thesis using True by (simp add: wrap64_def)
next
  case False
  have "(x + 9223372036854775808) mod 18446744073709551616 =
        (x + 9223372036854775808 - 18446744073709551616) mod 18446744073709551616"
    by (metis minus_mod_self2)
  also have "\<dots> = x + 9223372036854775808 - 18446744073709551616"
    using assms False by (intro mod_pos_pos_trivial) simp_all
  finally show ?thesis using False by (simp add: wrap64_def)
qed

lemma Prune_result:
  assumes r: "is_int64 (RetentionCount (policy sp))"
    and l: "int (length bc) < 9223372036854775808"
    and p: "PruneBlockchain sp bc now = Inr (dropCount, sp', bc')"
    and d: "0 < dropCount"
  shows "dropCount = claimed_dropCount (policy sp) bc"
    and "dropCount \<le> int (length bc)"
    and "sp' = sp\<lparr>integrityProofs := integrityProofs sp @
            [createIntegrityProof sp (sha256_hex (concat (map Hash (take (nat dropCount) bc)))) dropCount now],
          merkleRoot := sha256_hex (concat (map Hash (take (nat dropCount) bc)))\<rparr>"
    and "bc' = drop (nat dropCount) bc"
proof -
  let ?R = "RetentionCount (policy sp)"
  let ?d = "int (length bc) - ?R"
  let ?q = "wrap64 ?d"
  let ?p = "if UseCheckpoints (policy sp) then ?q - go_rem ?q (MaxHeight (policy sp)) else ?q"
  from p d have gt: "?R < int (length bc)"
    by (auto simp add: PruneBlockchain_def split: if_splits)
  from p d gt have nz: "\<not> (UseCheckpoints (policy sp) \<and> MaxHeight (policy sp) = 0)"
    by (auto simp add: PruneBlockchain_def Let_def split: if_splits)
  from p d gt nz have pos: "0 < ?p" and dc: "dropCount = ?p" and le: "?p \<le> int (length bc)"
    and rest: "sp' = sp\<lparr>integrityProofs := integrityProofs sp @
            [createIntegrityProof sp (sha256_hex (concat (map Hash (take (nat ?p) bc)))) ?p now],
          merkleRoot := sha256_hex (concat (map Hash (take (nat ?p) bc)))\<rparr>"
       "bc' = drop (nat ?p) bc"
    by (auto simp add: PruneBlockchain_def Let_def split: if_splits)
  have rng: "- 9223372036854775808 < ?d" "?d < 18446744073709551616"
    using r l gt by (simp_all add: is_int64_def)
  have p0pos: "0 < ?q"
  proof (rule ccontr)
    assume "\<not> 0 < ?q"
    then have "?q \<le> 0" by simp
    then have "?p \<le> 0" using sub_go_rem_nonpos [of ?q] by simp
    with pos show False by simp
  qed
  have nowrap: "?q = ?d"
  proof (cases "?d < 9223372036854775808")
    case True
    then show ?thesis using wrap64_cases [OF rng] by simp
  next
    case False
    then have "?q = ?d - 18446744073709551616" using wrap64_cases [OF rng] by simp
    then have "?q < 0" using rng(2) by linarith
    with p0pos show ?thesis by simp
  qed
  show "dropCount = claimed_dropCount (policy sp) bc"
    using dc nowrap by (simp add: claimed_dropCount_def Let_def)
  show "dropCount \<le> int (length bc)" using dc le by simp
  show "sp' = sp\<lparr>integrityProofs := integrityProofs sp @
            [createIntegrityProof sp (sha256_hex (concat (map Hash (take (nat dropCount) bc)))) dropCount now],
          merkleRoot := sha256_hex (concat (map Hash (take (nat dropCount) bc)))\<rparr>"
    using rest(1) dc by simp
  show "bc' = drop (nat dropCount) bc" using rest(2) dc by simp
qed

lemma VerifyIntegrity_create:
  "secretKey sp' = secretKey sp \<Longrightarrow> VerifyIntegrity sp' (createIntegrityProof sp rootHash count now)"
  by (simp add: VerifyIntegrity_def createIntegrityProof_def)

text \<open>
  C7. Whenever \<open>PruneBlockchain\<close> returns a positive count (for a retention count that is
  a Go \<open>int\<close> and a chain that fits in memory), the proof that this call appended is the
  latest proof, \<open>VerifyIntegrity\<close> accepts it, the count is the chain length minus the
  retention count, reduced by its remainder modulo \<open>MaxHeight\<close> when checkpoints are
  used, and the chain has lost that many blocks at its front.
\<close>

theorem prune_then_verify:
  assumes "is_int64 (RetentionCount (policy sp))"
    and "int (length bc) < 9223372036854775808"
    and "PruneBlockchain sp bc now = Inr (dropCount, sp', bc')"
    and "0 < dropCount"
  shows "GetLatestProof sp' =
           Some (createIntegrityProof sp
                  (sha256_hex (concat (map Hash (take (nat dropCount) bc)))) dropCount now) \<and>
         integrityProofs sp' = integrityProofs sp @
           [createIntegrityProof sp
              (sha256_hex (concat (map Hash (take (nat dropCount) bc)))) dropCount now] \<and>
         (case GetLatestProof sp' of None \<Rightarrow> False | Some latest \<Rightarrow> VerifyIntegrity sp' latest) \<and>
         dropCount = claimed_dropCount (policy sp) bc \<and>
         bc' = drop (nat dropCount) bc"
proof -
  note R = Prune_result [OF assms]
  have k: "secretKey sp' = secretKey sp" by (subst R(3)) simp
  have ip: "integrityProofs sp' = integrityProofs sp @
           [createIntegrityProof sp
              (sha256_hex (concat (map Hash (take (nat dropCount) bc)))) dropCount now]"
    by (subst R(3)) simp
  show ?thesis
    using R(1,4) ip VerifyIntegrity_create [OF k]
    by (simp add: GetLatestProof_def)
qed

theorem prune_then_verify_witness:
  "PruneBlockchain (NewStatePruner 2 2 True) demo_chain 0 = Inr (4, demo_pruned, drop 4 demo_chain) \<and>
   GetLatestProof demo_pruned =
     Some (createIntegrityProof (NewStatePruner 2 2 True)
             (sha256_hex (concat (map Hash (take 4 demo_chain)))) 4 0) \<and>
   (case GetLatestProof demo_pruned of None \<Rightarrow> False
    | Some latest \<Rightarrow> VerifyIntegrity demo_pruned latest) \<and>
   claimed_dropCount (policy (NewStatePruner 2 2 True)) demo_chain = 4"
proof -
  have w: "wrap64 5 = 5" by (simp add: wrap64_def)
  have r: "is_int64 (RetentionCount (policy (NewStatePruner 2 2 True)))"
    by (simp add: NewStatePruner_def is_int64_def)
  have l: "int (length demo_chain) < 9223372036854775808"
    by (simp add: demo_chain_def)
  have p: "PruneBlockchain (NewStatePruner 2 2 True) demo_chain 0 =
      Inr (4, demo_pruned, drop (nat 4) demo_chain)"
    by (simp add: PruneBlockchain_def NewStatePruner_def demo_chain_def demo_pruned_def Let_def
        w go_rem_def createIntegrityProof_def length_sha256_hex)
  have d: "(0::int) < 4" by simp
  note x = prune_then_verify [OF r l p d]
  show ?thesis
  proof (intro conjI)
    show "PruneBlockchain (NewStatePruner 2 2 True) demo_chain 0 =
        Inr (4, demo_pruned, drop 4 demo_chain)"
      using p by simp
    show "GetLatestProof demo_pruned =
        Some (createIntegrityProof (NewStatePruner 2 2 True)
               (sha256_hex (concat (map Hash (take 4 demo_chain)))) 4 0)"
      using x [THEN conjunct1] by simp
    show "case GetLatestProof demo_pruned of None \<Rightarrow> False
        | Some latest \<Rightarrow> VerifyIntegrity demo_pruned latest"
      by (rule x [THEN conjunct2, THEN conjunct2, THEN conjunct1])
    show "claimed_dropCount (policy (NewStatePruner 2 2 True)) demo_chain = 4"
      using x [THEN conjunct2, THEN conjunct2, THEN conjunct2, THEN conjunct1] by simp
  qed
qed

section \<open>Trie\<close>

lemma Trie_Get_updateHashes [simp]: "Trie_Get (updateHashes order n) k = Trie_Get n k"
proof (induction k arbitrary: n)
  case Nil
  then show ?case by (cases n) (simp add: Let_def)
next
  case (Cons b bs)
  then show ?case by (cases n) (simp add: Let_def split: option.splits)
qed

lemma Trie_Get_newTrieNode [simp]: "Trie_Get newTrieNode k = ([], False)"
  by (cases k) (simp_all add: newTrieNode_def)

lemma Trie_Get_insert_path:
  "Trie_Get (insert_path order n key v) k =
     (if k = key then (if v \<noteq> [] then (v, True) else ([], False)) else Trie_Get n k)"
proof (induction key arbitrary: n k)
  case Nil
  then show ?case by (cases k) simp_all
next
  case (Cons b bs)
  show ?case
  proof (cases k)
    case Nil
    then show ?thesis by (simp add: Let_def)
  next
    case (Cons c cs)
    then show ?thesis
      using Cons.IH by (auto simp add: Let_def split: option.splits)
  qed
qed

lemma Trie_Get_Insert:
  "Trie_Get (Trie_Insert order st key v) k =
     (if k = key then (if v \<noteq> [] then (v, True) else ([], False)) else Trie_Get st k)"
  by (simp add: Trie_Insert_def Trie_Get_insert_path)

lemma Trie_Inserts_snoc:
  "Trie_Inserts order (kvs @ [(k, v)]) = Trie_Insert order (Trie_Inserts order kvs) k v"
  by (simp add: Trie_Inserts_def)

text \<open>
  C6 (amended). After any sequence of inserts into a fresh trie, whatever the order in which
  the runtime visits a node's children, \<open>Get k\<close> returns \<open>(v, true)\<close> exactly when \<open>k\<close>
  was inserted and the value \<open>v\<close> of its last insert is not the empty string; it returns
  the empty string and \<open>false\<close> when \<open>k\<close> was never inserted or was last inserted with
  the empty string.
\<close>

theorem Trie_Get_after_inserts:
  "Trie_Get (Trie_Inserts order kvs) k =
     (case map_of (rev kvs) k of
        None \<Rightarrow> ([], False)
      | Some v \<Rightarrow> if v \<noteq> [] then (v, True) else ([], False))"
proof (induction kvs rule: rev_induct)
  case Nil
  then show ?case by (simp add: Trie_Inserts_def NewSuccinctTrie_def)
next
  case (snoc kv kvs)
  obtain key v where kv: "kv = (key, v)" by (cases kv)
  show ?case using snoc.IH by (simp add: kv Trie_Inserts_snoc Trie_Get_Insert)
qed

text \<open>
  C6 (as claimed) fails: after \<open>Insert("a", "")\<close> the key was inserted, and \<open>Get("a")\<close>
  reports it absent.
\<close>

theorem Trie_Get_empty_value_counterexample:
  "Trie_Get (Trie_Inserts ascending_bytes [(''a'', [])]) ''a'' \<noteq> claimed_Get [(''a'', [])] ''a''"
proof -
  have "Trie_Get (Trie_Inserts ascending_bytes [(''a'', [])]) ''a'' = ([], False)"
    unfolding Trie_Inserts_def by (simp add: Trie_Get_Insert del: Trie_Get.simps)
  then show ?thesis by (simp add: claimed_Get_def)
qed


section \<open>The chain\<close>

lemma AddBlock_appends:
  assumes "Blockchain_AddBlock bc d now = Inr bc'"
  shows "bc \<noteq> [] \<and> bc' = bc @ [last bc'] \<and>
         Index (last bc') = wrap64 (Index (last bc) + 1) \<and>
         Timestamp (last bc') = now \<and> Data (last bc') = d \<and>
         PrevHash (last bc') = Hash (last bc) \<and>
         Hash (last bc') = sha256_hex (go_string_of_int (Index (last bc')) @ Timestamp (last bc') @
                              Data (last bc') @ PrevHash (last bc'))"
  using assms
  by (auto simp add: Blockchain_AddBlock_def GenerateBlock_def calculateHash_def Let_def split: if_splits)

lemma genesis_hash:
  "Hash (GenesisBlock ''2024-05-01 12:00:00 +0000 UTC'') =
     ''2641928c46299681a5dc6b5c756e1f45a8bb616aa392697ba62eb2464586e634''"
  by code_simp

lemma added_hash:
  "sha256_hex (char_of (1 :: int) #
      ''2024-05-01 12:00:01 +0000 UTCFirst Block after Genesis2641928c46299681a5dc6b5c756e1f45a8bb616aa392697ba62eb2464586e634'') =
     ''adb7bd34abab26ac886ccde3d6b608dbfc805cc7e8a6ab87b03fe3c5ae2ee844''"
  by code_simp

lemma decimal_hash:
  "sha256_hex
      ''12024-05-01 12:00:01 +0000 UTCFirst Block after Genesis2641928c46299681a5dc6b5c756e1f45a8bb616aa392697ba62eb2464586e634'' =
     ''84e29594184936463e522874251574536fe678569a3f06aee1874f2cfeafaafe''"
  by code_simp

lemma Sprintf_d_1: "Sprintf_d 1 = ''1''"
  by code_simp

lemma go_string_of_int_1: "go_string_of_int 1 = [char_of (1 :: int)]"
  by (simp add: go_string_of_int_def utf8_def)

lemma GenesisBlock_Index: "Index (GenesisBlock now) = 0"
  by (simp add: GenesisBlock_def Let_def)

text \<open>
  C4. A fresh chain with one block added. The new block links to the genesis block, as the
  claim says. Its hash is the SHA-256 of the byte 0x01 followed by the other fields,
  \<open>adb7bd34...\<close>: \<open>string(block.Index)\<close> is the character with that code point. The
  claim gives the SHA-256 of the decimal numeral \<open>1\<close> followed by the other fields,
  \<open>84e29594...\<close>.
\<close>

theorem AddBlock_hash_is_not_decimal:
  "case demo_added of
     Inl p \<Rightarrow> False
   | Inr bc \<Rightarrow>
       Index (last bc) = 1 \<and>
       PrevHash (last bc) = Hash (GenesisBlock ''2024-05-01 12:00:00 +0000 UTC'') \<and>
       Hash (last bc) = ''adb7bd34abab26ac886ccde3d6b608dbfc805cc7e8a6ab87b03fe3c5ae2ee844'' \<and>
       claimed_Hash (last bc) = ''84e29594184936463e522874251574536fe678569a3f06aee1874f2cfeafaafe''"
  by (simp add: demo_added_def Blockchain_AddBlock_def NewBlockchain_def GenerateBlock_def
      calculateHash_def claimed_Hash_def genesis_hash Let_def wrap64_def Sprintf_d_1
      go_string_of_int_1 added_hash decimal_hash GenesisBlock_Index)


section \<open>RSA accumulator\<close>

lemma hashToPrime_1:
  "hashToPrime ''block_hash_1'' =
     112478434398460424855808908028845713070137235812670733536699648506821248361411"
  by code_simp

lemma hashToPrime_2:
  "hashToPrime ''block_hash_2'' =
     67877213851393854023182776752385981191895975800878210729773353073501117892053"
  by code_simp

lemma big_Exp_1:
  "big_Exp 3 112478434398460424855808908028845713070137235812670733536699648506821248361411 59989 = 3875"
  by code_simp

lemma big_Exp_2:
  "big_Exp 3875 67877213851393854023182776752385981191895975800878210729773353073501117892053 59989 = 22278"
  by code_simp

text \<open>
  C2. After \<open>AddElement("block_hash_1")\<close> and \<open>AddElement("block_hash_2")\<close> on a fresh
  accumulator the state is 22278. The witness stored for the first element is still the
  generator 3, as computed when the element was alone; raised to the element's prime it
  gives 3875, so \<open>VerifyMembership\<close> rejects it and the invariant of the claim is false.
\<close>

theorem stale_witness_fails_membership:
  "Elements demo_acc = [''block_hash_1'', ''block_hash_2''] \<and>
   State demo_acc = 22278 \<and>
   Proofs demo_acc ''block_hash_1'' = Some 3 \<and>
   big_Exp 3 (hashToPrime ''block_hash_1'') (N demo_acc) = 3875 \<and>
   \<not> VerifyMembership demo_acc ''block_hash_1'' 3 \<and>
   \<not> membership_invariant demo_acc"
  by (simp add: demo_acc_def AddElement_def NewRSAAccumulator_def Let_def VerifyMembership_def
      membership_invariant_def hashToPrime_1 hashToPrime_2 big_Exp_1 big_Exp_2)

section \<open>The shard index\<close>

lemma GetAllShards_zip_up:
  "GetAllShards (zip_up n path) = before path @ GetAllShards n @ after path"
proof (induction path arbitrary: n)
  case Nil
  then show ?case by (simp add: zip_up_def)
next
  case (Cons f path)
  obtain d c a sib where f: "f = (d, c, a, sib)" by (cases f)
  have "zip_up n (f # path) = zip_up (plug n f) path" by (simp add: zip_up_def)
  then show ?case using Cons.IH [of "plug n f"] by (cases d) (simp_all add: f)
qed

lemma GetAllShards_paint [simp]: "GetAllShards (paint c t) = GetAllShards t"
  by (cases t) simp_all

lemma zip_up_Cons: "zip_up n (f # path) = zip_up (plug n f) path"
  by (simp add: zip_up_def)

lemma GetAllShards_fixInsert:
  "fixInsert n path = Inr t \<Longrightarrow> GetAllShards t = before path @ GetAllShards n @ after path"
proof (induction n path arbitrary: t rule: fixInsert.induct)
  case (1 node)
  then show ?case by simp
next
  case (2 node d c a sibling)
  then show ?case by (cases d) (auto split: if_splits)
next
  case (3 node d1 c1 a1 sibling d2 c2 a2 uncle rest)
  show ?case
  proof (cases "c1 \<noteq> Red")
    case True
    with 3(2) have "t = zip_up node ((d1, c1, a1, sibling) # (d2, c2, a2, uncle) # rest)"
      by simp
    then show ?thesis by (simp only: GetAllShards_zip_up)
  next
    case c1: False
    show ?thesis
    proof (cases "color_of uncle = Red")
      case True
      with c1 3(2) have "fixInsert (plug (plug node (d1, Black, a1, sibling)) (d2, Red, a2, paint Black uncle)) rest = Inr t"
        by simp
      from 3(1) [OF c1 True this] show ?thesis
        by (cases d1; cases d2) simp_all
    next
      case False
      with c1 3(2) show ?thesis
        by (cases node; cases d1; cases d2) (auto simp add: GetAllShards_zip_up)
    qed
  qed
qed


section \<open>Index never empty\<close>

lemma fixInsert_ok:
  "n \<noteq> NilNode \<Longrightarrow> path = [] \<or> fst (snd (last path)) = Black \<Longrightarrow> \<exists>t. fixInsert n path = Inr t"
proof (induction n path rule: fixInsert.induct)
  case (1 node)
  then show ?case by simp
next
  case (2 node d c a sibling)
  then show ?case by simp
next
  case (3 node d1 c1 a1 sibling d2 c2 a2 uncle rest)
  show ?case
  proof (cases "c1 \<noteq> Red")
    case True
    then show ?thesis by simp
  next
    case c1: False
    show ?thesis
    proof (cases "color_of uncle = Red")
      case True
      have ne: "plug (plug node (d1, Black, a1, sibling)) (d2, Red, a2, paint Black uncle) \<noteq> NilNode"
        by (cases d2) simp_all
      have "rest = [] \<or> fst (snd (last rest)) = Black"
        using 3(3) by (cases rest) simp_all
      from 3(1) [OF c1 True ne this] show ?thesis using c1 True by simp
    next
      case False
      then show ?thesis using c1 3(2) by (cases node) simp_all
    qed
  qed
qed

lemma last_descend: "path \<noteq> [] \<Longrightarrow> last (descend key k t path) = last path"
  by (induction t arbitrary: path) simp_all

lemma descend_root_black:
  "color_of t = Black \<Longrightarrow>
   descend key k t [] = [] \<or> fst (snd (last (descend key k t []))) = Black"
  by (cases t) (simp_all add: last_descend)

lemma zip_up_descend: "zip_up NilNode (descend key k t path) = zip_up t path"
  by (induction t arbitrary: path) (simp_all add: zip_up_Cons)

lemma color_of_paint_Black [simp]: "color_of (paint Black t) = Black"
  by (cases t) simp_all

lemma RB_Insert_ok:
  assumes "color_of t = Black"
  shows "\<exists>t'. RB_Insert key t a = Inr t' \<and> color_of t' = Black \<and>
           (\<exists>xs ys. GetAllShards t = xs @ ys \<and> GetAllShards t' = xs @ a # ys)"
proof -
  let ?p = "descend key (key a) t []"
  obtain r where r: "fixInsert (Node Red NilNode a NilNode) ?p = Inr r"
    using fixInsert_ok [OF _ descend_root_black [OF assms]] by blast
  have "zip_up NilNode ?p = t"
    by (simp add: zip_up_descend) (simp add: zip_up_def)
  then have "GetAllShards t = before ?p @ after ?p"
    using GetAllShards_zip_up [of NilNode ?p] by simp
  moreover have "GetAllShards (paint Black r) = before ?p @ a # after ?p"
    using GetAllShards_fixInsert [OF r] by simp
  ultimately show ?thesis using r by (auto simp add: RB_Insert_def)
qed

lemma RB_Insert_length:
  assumes "color_of t = Black"
  obtains t' where "RB_Insert key t a = Inr t'" "color_of t' = Black"
    "length (GetAllShards t') = Suc (length (GetAllShards t))"
proof -
  from RB_Insert_ok [OF assms, of key a] obtain t' xs ys where
    "RB_Insert key t a = Inr t'" "color_of t' = Black"
    "GetAllShards t = xs @ ys" "GetAllShards t' = xs @ a # ys" by blast
  then show ?thesis using that by simp
qed

lemma rebalance_step_ok:
  assumes "color_of tree = Black"
  shows "\<exists>tree' c' s'. rebalance_step shard (tree, c, s) = Inr (tree', c', s') \<and>
           color_of tree' = Black \<and> length (GetAllShards tree) < length (GetAllShards tree')"
proof (cases "MaxBlocksPerShard < length (Blocks (mem s shard))")
  case False
  obtain t1 where "RB_Insert (shard_key s) tree shard = Inr t1" "color_of t1 = Black"
      "length (GetAllShards t1) = Suc (length (GetAllShards tree))"
    using RB_Insert_length [OF assms] by blast
  then show ?thesis using False by (simp add: rebalance_step_def)
next
  case True
  let ?mid = "length (Blocks (mem s shard)) div 2"
  let ?s1 = "put s shard ((mem s shard)\<lparr>Blocks := take ?mid (Blocks (mem s shard)),
                      Tree := Some (NewMerkleTree (getDataStrings (take ?mid (Blocks (mem s shard)))))\<rparr>)"
  obtain t1 where t1: "RB_Insert (shard_key ?s1) tree shard = Inr t1" "color_of t1 = Black"
      "length (GetAllShards t1) = Suc (length (GetAllShards tree))"
    using RB_Insert_length [OF assms] by blast
  obtain newShard s2 where n: "NewShard ?s1 c = (newShard, s2)" by (cases "NewShard ?s1 c")
  let ?s3 = "foldl (\<lambda>s' b. Shard_AddBlock s' newShard b) s2 (drop ?mid (Blocks (mem s shard)))"
  obtain t2 where t2: "RB_Insert (shard_key ?s3) t1 newShard = Inr t2" "color_of t2 = Black"
      "length (GetAllShards t2) = Suc (length (GetAllShards t1))"
    using RB_Insert_length [OF t1(2)] by blast
  show ?thesis using True t1 n t2 by (simp add: rebalance_step_def Let_def)
qed

lemma rebalance_loop_ok:
  assumes "color_of tree = Black"
  shows "\<exists>tree' c' s'. rebalance_loop shards (tree, c, s) = Inr (tree', c', s') \<and>
           color_of tree' = Black \<and>
           length (GetAllShards tree) + length shards \<le> length (GetAllShards tree')"
  using assms
proof (induction shards arbitrary: tree c s)
  case Nil
  then show ?case by simp
next
  case (Cons shard shards)
  from rebalance_step_ok [OF Cons.prems, of shard c s] obtain t1 c1 s1 where
    st: "rebalance_step shard (tree, c, s) = Inr (t1, c1, s1)" "color_of t1 = Black"
      "length (GetAllShards tree) < length (GetAllShards t1)" by blast
  from Cons.IH [OF st(2), of c1 s1] obtain t2 c2 s2 where
    "rebalance_loop shards (t1, c1, s1) = Inr (t2, c2, s2)" "color_of t2 = Black"
    "length (GetAllShards t1) + length shards \<le> length (GetAllShards t2)" by blast
  then show ?case using st by simp
qed

lemma RebalanceShards_ok:
  "\<exists>sm' s'. RebalanceShards sm s = Inr (sm', s') \<and> color_of sm' = Black \<and>
      length (GetAllShards sm) \<le> length (GetAllShards sm')"
proof -
  have b: "color_of NewRBTree = Black" by (simp add: NewRBTree_def)
  from rebalance_loop_ok [OF b, of "GetAllShards sm" "int (length (GetAllShards sm))" s]
  show ?thesis by (auto simp add: RebalanceShards_def)
qed

declare merge_loop.simps [simp del]

lemma merge_loop_ok:
  assumes "color_of tree = Black"
  shows "\<exists>tree' s'. merge_loop threshold shards i used (tree, s) = Inr (tree', s') \<and>
           color_of tree' = Black \<and>
           length (GetAllShards tree) \<le> length (GetAllShards tree') \<and>
           (i < length shards \<and> \<not> used i \<longrightarrow> length (GetAllShards tree) < length (GetAllShards tree'))"
  using assms
proof (induction "length shards - i" arbitrary: i used tree s)
  case 0
  then show ?case by (subst merge_loop.simps) simp
next
  case (Suc n)
  then have i: "i < length shards" by simp
  have m: "n = length shards - (i + 1)" using Suc(2) by simp
  show ?case
  proof (cases "used i")
    case True
    from Suc(1) [OF m Suc(3), of "used" s] show ?thesis
      using True i by (subst merge_loop.simps) auto
  next
    case u: False
    let ?current = "shards ! i"
    show ?thesis
    proof (cases "int (length (Blocks (mem s ?current))) < threshold \<and>
                 i + 1 < length shards \<and> \<not> used (i + 1)")
      case False
      obtain t1 where t1: "RB_Insert (shard_key s) tree ?current = Inr t1" "color_of t1 = Black"
        "length (GetAllShards t1) = Suc (length (GetAllShards tree))"
        using RB_Insert_length [OF Suc(3)] by blast
      from Suc(1) [OF m t1(2), of "used(i := True)" s] obtain t2 s2 where
        "merge_loop threshold shards (i + 1) (used(i := True)) (t1, s) = Inr (t2, s2)"
        "color_of t2 = Black" "length (GetAllShards t1) \<le> length (GetAllShards t2)" by blast
      then show ?thesis using False u i t1
        by (subst merge_loop.simps) (auto simp add: Let_def)
    next
      case True
      obtain merged s1 where n: "NewShard s (ID (mem s ?current)) = (merged, s1)"
        by (cases "NewShard s (ID (mem s ?current))")
      let ?s2 = "put s1 merged ((mem s1 merged)\<lparr>Blocks :=
                            Blocks (mem s1 ?current) @ Blocks (mem s1 (shards ! (i + 1)))\<rparr>)"
      let ?s3 = "put ?s2 merged ((mem ?s2 merged)\<lparr>Tree :=
                            Some (NewMerkleTree (map Data (Blocks (mem ?s2 merged))))\<rparr>)"
      obtain t1 where t1: "RB_Insert (shard_key ?s3) tree merged = Inr t1" "color_of t1 = Black"
        "length (GetAllShards t1) = Suc (length (GetAllShards tree))"
        using RB_Insert_length [OF Suc(3)] by blast
      from Suc(1) [OF m t1(2), of "used(i := True, i + 1 := True)" ?s3] obtain t2 s2 where
        "merge_loop threshold shards (i + 1) (used(i := True, i + 1 := True)) (t1, ?s3) = Inr (t2, s2)"
        "color_of t2 = Black" "length (GetAllShards t1) \<le> length (GetAllShards t2)" by blast
      then show ?thesis using True u i t1 n
        by (subst merge_loop.simps) (auto simp add: Let_def)
    qed
  qed
qed

lemma MergeShards_ok:
  assumes "GetAllShards sm \<noteq> []"
  shows "\<exists>sm' s'. MergeShards sm s threshold = Inr (sm', s') \<and> color_of sm' = Black \<and>
      GetAllShards sm' \<noteq> []"
proof -
  have b: "color_of NewRBTree = Black" by (simp add: NewRBTree_def)
  from merge_loop_ok [OF b, of threshold "GetAllShards sm" 0 "\<lambda>i. False" s] assms
  show ?thesis by (auto simp add: MergeShards_def)
qed

lemma DistributeBlock_ok:
  assumes "GetAllShards sm \<noteq> []"
  shows "\<exists>sm' s'. DistributeBlock sm s block = Inr (sm', s') \<and> color_of sm' = Black \<and>
      GetAllShards sm' \<noteq> []"
  using assms RebalanceShards_ok [of sm "Shard_AddBlock s (last (GetAllShards sm)) block"]
  by (auto simp add: DistributeBlock_def)

lemma NewShardManager_ok:
  "\<exists>sm s'. NewShardManager s = Inr (sm, s') \<and> color_of sm = Black \<and> GetAllShards sm \<noteq> []"
proof -
  have b: "color_of NewRBTree = Black" by (simp add: NewRBTree_def)
  obtain shard s1 where n: "NewShard s 0 = (shard, s1)" by (cases "NewShard s 0")
  obtain t1 where "RB_Insert (shard_key s1) NewRBTree shard = Inr t1" "color_of t1 = Black"
        "length (GetAllShards t1) = Suc (length (GetAllShards NewRBTree))"
    using RB_Insert_length [OF b] by blast
  then show ?thesis using n by (auto simp add: NewShardManager_def)
qed

lemma apply_op_ok:
  assumes "GetAllShards sm \<noteq> []"
  shows "\<exists>sm' s'. apply_op x (sm, s) = Inr (sm', s') \<and> GetAllShards sm' \<noteq> []"
proof (cases x)
  case (Distribute b)
  then show ?thesis using DistributeBlock_ok [OF assms, of s b] by auto
next
  case Rebalance
  then show ?thesis using RebalanceShards_ok [of sm s] assms by auto
next
  case (Merge t)
  then show ?thesis using MergeShards_ok [OF assms, of s t] by auto
qed

lemma run_ops_ok:
  assumes "GetAllShards sm \<noteq> []"
  shows "\<exists>sm' s'. run_ops ops (Inr (sm, s)) = Inr (sm', s') \<and> GetAllShards sm' \<noteq> []"
  using assms
proof (induction ops arbitrary: sm s)
  case Nil
  then show ?case by simp
next
  case (Cons x ops)
  from apply_op_ok [OF Cons.prems, of x s] obtain sm1 s1 where
    "apply_op x (sm, s) = Inr (sm1, s1)" "GetAllShards sm1 \<noteq> []" by blast
  then show ?case using Cons.IH [of sm1 s1] by simp
qed

text \<open>
  C9. From \<open>NewShardManager\<close>, on any store, every sequence of \<open>DistributeBlock\<close>,
  \<open>RebalanceShards\<close> and \<open>MergeShards\<close> calls runs without a panic and leaves at least one
  shard in the index; so \<open>DistributeBlock\<close> never indexes an empty enumeration.
\<close>

theorem shard_index_never_empty:
  "\<exists>sm s'. run_ops ops (NewShardManager s) = Inr (sm, s') \<and> GetAllShards sm \<noteq> []"
proof -
  obtain sm0 s0 where "NewShardManager s = Inr (sm0, s0)" "GetAllShards sm0 \<noteq> []"
    using NewShardManager_ok by blast
  then show ?thesis using run_ops_ok [of sm0 ops s0] by simp
qed

end
